theory Spec2Isabelle
  imports Complex_Main "HOL-Library.Sublist"
begin

section \<open>Numbers\<close>

text \<open>
  The scoring engine of \<^verbatim>\<open>risk_calculator.py\<close> computes with Python numbers. The
  maturity levels and the weights are integers; every \<^verbatim>\<open>/\<close> is true division and
  gives a double, and so does every operation that has a double operand. Such an
  operation returns the exact result rounded to a double. The model computes in
  \<^typ>\<open>real\<close> and applies a rounding function \<open>fl\<close> to the exact result of each of
  these operations. The vulnerability calculators, whose results are decided by
  comparisons and by \<^verbatim>\<open>round\<close>, take \<open>fl\<close> as their first argument: a theorem about
  every \<open>fl\<close> holds whatever the rounding of the machine is. Comparisons of doubles
  and integers, \<^verbatim>\<open>max\<close>, \<^verbatim>\<open>min\<close> and \<^verbatim>\<open>round\<close> are exact, and so is the
  conversion of an integer operand to a double: the integers of a questionnaire are far
  below 2^53. The points of a criterion are a number that is read as it is.

  Two roundings are named. \<open>exact\<close> does not round at all. \<open>fl64\<close> rounds to the
  nearest number with 53 significant bits, a tie to the even one, which is what a
  binary64 operation does as long as the exponent stays in range.

  Python's \<^verbatim>\<open>round(x)\<close> with one argument returns the nearest integer and resolves a
  tie to the even neighbour.
\<close>

definition py_round :: "real \<Rightarrow> int" where
  "py_round x =
     (let f = \<lfloor>x\<rfloor>; d = x - of_int f
      in if d < 1 / 2 then f
         else if 1 / 2 < d then f + 1
         else if even f then f else f + 1)"

definition exact :: "real \<Rightarrow> real" where
  "exact x = x"

definition fl64 :: "real \<Rightarrow> real" where
  "fl64 x =
     (if x = 0 then 0
      else (let e = \<lfloor>log 2 \<bar>x\<bar>\<rfloor> - 52
            in of_int (py_round (x / 2 powr of_int e)) * 2 powr of_int e))"

text \<open>
  What the range of the cloud result needs of a rounding: it keeps the order of numbers
  that are not negative, and it leaves the integers from 0 to 100 as they are. Binary64
  rounding does both.
\<close>

definition monotone_rounding :: "(real \<Rightarrow> real) \<Rightarrow> bool" where
  "monotone_rounding fl =
     ((\<forall>x y. 0 \<le> x \<and> x \<le> y \<longrightarrow> fl x \<le> fl y) \<and>
      (\<forall>n :: int. 0 \<le> n \<and> n \<le> 100 \<longrightarrow> fl (of_int n) = of_int n))"

text \<open>
  What the distance of a result from the exact one needs of a rounding: the relative
  error of each operation is at most \<open>u\<close>. Binary64 rounding has it with \<open>u\<close> = 2^-53.
\<close>

definition accurate_rounding :: "(real \<Rightarrow> real) \<Rightarrow> real \<Rightarrow> bool" where
  "accurate_rounding fl u = (0 \<le> u \<and> (\<forall>x. \<bar>fl x - x\<bar> \<le> u * \<bar>x\<bar>))"

section \<open>Data model\<close>

text \<open>
  A question of the standard questionnaire is a dict read through \<^verbatim>\<open>q['id']\<close> and
  \<^verbatim>\<open>q.get('weight')\<close>; a criterion of the cloud scorecard through \<^verbatim>\<open>c['id']\<close>,
  \<^verbatim>\<open>c.get('points', 0)\<close> and \<^verbatim>\<open>c.get('criticality')\<close>. A key read with
  \<^verbatim>\<open>.get\<close> may be absent: its field is an option.
\<close>

record question =
  q_id :: int
  weight :: "string option"

record criterion =
  c_id :: int
  points :: "real option"
  criticality :: "string option"

text \<open>
  \<^verbatim>\<open>osint_results\<close> is read through \<^verbatim>\<open>.get('ransomware')\<close>, \<^verbatim>\<open>.get('ssl')\<close> and
  \<^verbatim>\<open>.get('dmarc')\<close> only, behind the truth test \<^verbatim>\<open>if osint_results:\<close>. The
  argument is an \<^typ>\<open>'a option\<close>: \<open>None\<close> stands for the two values the truth test
  rejects (\<^verbatim>\<open>None\<close> and the empty dict), \<open>Some r\<close> for a dict with at least one key.
\<close>

record osint =
  ransomware :: "bool option"
  ssl :: "string option"
  dmarc :: "bool option"

text \<open>
  The answers of the standard track are a dict from question id to maturity level, where
  a level may be \<^verbatim>\<open>None\<close> (the code tests \<^verbatim>\<open>answers[qid] is not None\<close>). The code
  both looks keys up and enumerates \<^verbatim>\<open>answers.values()\<close>, so the dict is an association
  list in insertion order, read with \<^const>\<open>map_of\<close>. The scores of the cloud track are a
  \<^verbatim>\<open>Dict[int, int]\<close> read with \<^verbatim>\<open>scores.get\<close> only.
\<close>

type_synonym answers = "(int \<times> int option) list"

type_synonym scores = "(int \<times> int) list"

record cloud_result =
  score :: int
  maxScore :: int
  vulnerability :: int
  status :: string
  statusColor :: string
  missedCritical :: bool

section \<open>Standard track: vulnerability\<close>

definition question_weight :: "question \<Rightarrow> int" where
  "question_weight q =
     (if weight q = Some ''Critical'' then 3 else if weight q = Some ''High'' then 2 else 1)"

text \<open>
  The \<^verbatim>\<open>for q in questions\<close> loop of \<^verbatim>\<open>calc_vulnerability\<close>, with its two
  accumulators \<^verbatim>\<open>total_weight\<close>, an integer, and \<^verbatim>\<open>weighted_score\<close>, a double from
  the first addition on. Three operations round: the division by 5, the product with
  the weight, and the addition to \<^verbatim>\<open>weighted_score\<close>.
\<close>

fun vuln_loop ::
  "(real \<Rightarrow> real) \<Rightarrow> answers \<Rightarrow> question list \<Rightarrow> int \<times> real \<Rightarrow> int \<times> real" where
  "vuln_loop fl answers [] acc = acc"
| "vuln_loop fl answers (q # qs) (total_weight, weighted_score) =
     (case map_of answers (q_id q) of
        Some (Some answer_val) \<Rightarrow>
          (let normalized = fl ((6 - of_int answer_val) / 5);
               w = question_weight q
           in vuln_loop fl answers qs
                (total_weight + w, fl (weighted_score + fl (normalized * of_int w))))
      | _ \<Rightarrow> vuln_loop fl answers qs (total_weight, weighted_score))"

text \<open>
  The OSINT block that both vulnerability calculators contain verbatim: two successive
  \<^verbatim>\<open>max\<close> updates under \<^verbatim>\<open>if osint_results:\<close>. The standard track applies it to the
  unrounded percentage, the cloud track to the rounded one.
\<close>

definition osint_floor :: "osint option \<Rightarrow> 'a::{linorder, numeral} \<Rightarrow> 'a" where
  "osint_floor osint_results vuln =
     (case osint_results of
        None \<Rightarrow> vuln
      | Some r \<Rightarrow>
          (let vuln1 = (if ssl r = Some ''F'' \<or> ssl r = Some ''Expired''
                        then max vuln 80 else vuln)
           in if dmarc r = Some False then max vuln1 60 else vuln1))"

definition calc_vulnerability ::
  "(real \<Rightarrow> real) \<Rightarrow> answers \<Rightarrow> question list \<Rightarrow> osint option \<Rightarrow> int" where
  "calc_vulnerability fl answers questions osint_results =
     (if answers = [] then 100
      else
        (let (total_weight, weighted_score) = vuln_loop fl answers questions (0, 0)
         in if total_weight = 0 then 100
            else py_round
                   (osint_floor osint_results
                      (fl (fl (weighted_score / of_int total_weight) * 100)))))"

section \<open>Cloud track: vulnerability and status\<close>

text \<open>
  The \<^verbatim>\<open>for c in criteria\<close> loop of \<^verbatim>\<open>calc_cloud_vulnerability\<close>. Three operations
  round: the division of the maturity by 5, the product with the points, and the addition
  to \<^verbatim>\<open>total_score\<close>.
\<close>

fun total_score_loop :: "(real \<Rightarrow> real) \<Rightarrow> scores \<Rightarrow> criterion list \<Rightarrow> real \<Rightarrow> real" where
  "total_score_loop fl scores [] total_score = total_score"
| "total_score_loop fl scores (c # cs) total_score =
     (let maturity_score = (case map_of scores (c_id c) of None \<Rightarrow> 0 | Some m \<Rightarrow> m);
          pts = (case points c of None \<Rightarrow> 0 | Some p \<Rightarrow> p);
          weighted_points = fl (fl (of_int maturity_score / 5) * pts)
      in total_score_loop fl scores cs (fl (total_score + weighted_points)))"

definition missed_critical :: "scores \<Rightarrow> criterion list \<Rightarrow> bool" where
  "missed_critical scores criteria =
     list_ex (\<lambda>c. criticality c = Some ''Critical'' \<and>
                   (map_of scores (c_id c) = Some 0 \<or> map_of scores (c_id c) = None))
       criteria"

definition cloud_status :: "bool \<Rightarrow> real \<Rightarrow> string \<times> string" where
  "cloud_status missed total_score =
     (if missed \<or> total_score < 15 then (''REJECT (Critical Risk)'', ''red'')
      else if total_score < 30 then (''Restricted (Deficient)'', ''amber'')
      else if total_score < 45 then (''Standard Approval'', ''yellow'')
      else (''Elite (Pre-approved)'', ''green''))"

definition calc_cloud_vulnerability ::
  "(real \<Rightarrow> real) \<Rightarrow> scores \<Rightarrow> criterion list \<Rightarrow> osint option \<Rightarrow> cloud_result" where
  "calc_cloud_vulnerability fl scores criteria osint_results =
     (let total_score = total_score_loop fl scores criteria 0;
          max_score = (55 :: int);
          missed = missed_critical scores criteria;
          vuln = (if max_score > 0
                  then py_round (fl (fl (1 - fl (total_score / of_int max_score)) * 100))
                  else 100);
          vuln = osint_floor osint_results vuln;
          (st, col) = cloud_status missed total_score
      in \<lparr>score = py_round total_score, maxScore = max_score, vulnerability = vuln,
          status = st, statusColor = col, missedCritical = missed\<rparr>)"

section \<open>Standard track: impact and likelihood\<close>

text \<open>
  \<^verbatim>\<open>calc_impact_likelihood\<close> returns its two numbers as they are, with no comparison or
  \<^verbatim>\<open>round\<close> after the arithmetic: it is modelled without rounding, the literal
  \<^verbatim>\<open>1.2\<close> being the fraction 12/10.
\<close>

definition calc_impact_likelihood ::
  "answers \<Rightarrow> question list \<Rightarrow> osint option \<Rightarrow> real \<times> real" where
  "calc_impact_likelihood answers questions osint_results =
     (let (impact, likelihood) =
            (if answers \<noteq> []
             then
               (let answer_vals = List.map_filter snd answers
                in if answer_vals \<noteq> []
                   then
                     (let avg_score =
                            of_int (sum_list answer_vals) / of_nat (length answer_vals)
                      in (max 1 (min 5 (6 - avg_score / (12 / 10))),
                          max 1 (min 5 (6 - avg_score / (12 / 10)))))
                   else (3, 3))
             else (3, 3));
          likelihood =
            (case osint_results of
               None \<Rightarrow> likelihood
             | Some r \<Rightarrow> if ransomware r = Some True then 5 else likelihood)
      in (impact, likelihood))"

section \<open>OSINT checks\<close>

text \<open>
  \<^verbatim>\<open>osint_service.py\<close> keeps one module-level dict \<^verbatim>\<open>_cache\<close> from a key to a pair
  (value, timestamp). The values are the result dicts of \<^verbatim>\<open>check_dmarc\<close> and of
  \<^verbatim>\<open>get_certificate_stats\<close>. The dict is passed in and returned; the readings of
  \<^verbatim>\<open>time.time()\<close> are arguments.
\<close>

record dmarc_result =
  has_dmarc :: bool
  policy :: "string option"
  domain :: string

record certificate_stats =
  valid :: bool
  daysRemaining :: int
  grade :: string

datatype cached = DmarcResult dmarc_result | CertificateStats certificate_stats

type_synonym cache = "string \<rightharpoonup> cached \<times> real"

definition get_cache :: "cache \<Rightarrow> real \<Rightarrow> string \<Rightarrow> real \<Rightarrow> cached option \<times> cache" where
  "get_cache cache now key ttl_seconds =
     (case cache key of
        None \<Rightarrow> (None, cache)
      | Some (val, timestamp) \<Rightarrow>
          if now - timestamp < ttl_seconds then (Some val, cache)
          else (None, cache(key := None)))"

definition set_cache :: "cache \<Rightarrow> real \<Rightarrow> string \<Rightarrow> cached \<Rightarrow> cache" where
  "set_cache cache now key val = cache(key \<mapsto> (val, now))"

text \<open>The module starts with \<^verbatim>\<open>_cache = {}\<close>.\<close>

definition initial_cache :: cache where
  "initial_cache = Map.empty"

text \<open>
  \<^verbatim>\<open>str.strip()\<close> and \<^verbatim>\<open>str.lower()\<close> on the ASCII range: a domain name and a DMARC
  record are ASCII text.
\<close>

definition py_isspace :: "char \<Rightarrow> bool" where
  "py_isspace c =
     (c \<in> set [CHR 0x09, CHR 0x0A, CHR 0x0B, CHR 0x0C, CHR 0x0D,
                CHR 0x1C, CHR 0x1D, CHR 0x1E, CHR 0x1F, CHR '' ''])"

definition strip :: "string \<Rightarrow> string" where
  "strip s = rev (dropWhile py_isspace (rev (dropWhile py_isspace s)))"

definition lower_char :: "char \<Rightarrow> char" where
  "lower_char c =
     (let n = (of_char c :: nat) in if 65 \<le> n \<and> n \<le> 90 then char_of (n + 32) else c)"

definition lower :: "string \<Rightarrow> string" where
  "lower s = map lower_char s"

text \<open>
  What the resolver gives for a TXT query: an exception (no answer, no such name, a
  timeout, a missing resolver module), or the records. A record is its \<^verbatim>\<open>strings\<close>:
  the resolver module that has \<^verbatim>\<open>dns.resolver.resolve\<close> keeps them as a tuple of
  \<^verbatim>\<open>bytes\<close> objects, here lists of bytes.
\<close>

datatype dns_answer = DnsFailure | TxtRecords "string list list"

text \<open>
  The name system as \<^verbatim>\<open>dns.resolver.resolve(name, 'TXT')\<close> sees it: the answer for
  each name that has one; any other name does not resolve.
\<close>

type_synonym dns = "(string \<times> dns_answer) list"

definition resolve :: "dns \<Rightarrow> string \<Rightarrow> dns_answer" where
  "resolve dns name = (case map_of dns name of None \<Rightarrow> DnsFailure | Some a \<Rightarrow> a)"

text \<open>
  \<^verbatim>\<open>str(r)\<close> of a \<^verbatim>\<open>bytes\<close> object is its \<^verbatim>\<open>repr\<close>: the letter b, a quote, the
  bytes with backslash escapes, and the quote again. The quote is the single quote (byte
  0x27), or the double quote (0x22) when the bytes hold a single quote and no double
  quote. A backslash (0x5C) and the quote take a backslash; tab, line feed and carriage
  return are written with the letters t, n and r; any other byte below 0x20 or from 0x7F
  on is written with x and two hexadecimal digits.
\<close>

definition hex_digit :: "nat \<Rightarrow> char" where
  "hex_digit n = ''0123456789abcdef'' ! (n mod 16)"

definition repr_byte :: "char \<Rightarrow> char \<Rightarrow> string" where
  "repr_byte quote c =
     (if c = quote \<or> c = CHR 0x5C then [CHR 0x5C, c]
      else if c = CHR 0x09 then [CHR 0x5C, CHR ''t'']
      else if c = CHR 0x0A then [CHR 0x5C, CHR ''n'']
      else if c = CHR 0x0D then [CHR 0x5C, CHR ''r'']
      else if (of_char c :: nat) < 32 \<or> 127 \<le> (of_char c :: nat)
      then [CHR 0x5C, CHR ''x'', hex_digit (of_char c div 16), hex_digit (of_char c)]
      else [c])"

definition bytes_repr :: "string \<Rightarrow> string" where
  "bytes_repr bs =
     (let quote = (if CHR 0x27 \<in> set bs \<and> CHR 0x22 \<notin> set bs then CHR 0x22 else CHR 0x27)
      in CHR ''b'' # quote # concat (map (repr_byte quote) bs) @ [quote])"

text \<open>
  The \<^verbatim>\<open>for record in records\<close> loop of \<^verbatim>\<open>check_dmarc\<close>. The text of a record is
  \<^verbatim>\<open>''.join([str(r) for r in record.strings])\<close>. The loop returns at the first record
  whose text starts with \<^verbatim>\<open>v=dmarc1\<close> once lowered, with the policy found by substring
  tests. \<open>None\<close> is the loop running to its end.
\<close>

fun find_dmarc :: "string list list \<Rightarrow> string option" where
  "find_dmarc [] = None"
| "find_dmarc (record # records) =
     (let txt = concat (map bytes_repr record)
      in if prefix ''v=dmarc1'' (lower txt)
         then Some (if sublist ''p=reject'' (lower txt) then ''reject''
                    else if sublist ''p=quarantine'' (lower txt) then ''quarantine''
                    else if sublist ''p=none'' (lower txt) then ''none''
                    else ''none'')
         else find_dmarc records)"

definition check_dmarc ::
  "cache \<Rightarrow> real \<Rightarrow> real \<Rightarrow> dns \<Rightarrow> string \<Rightarrow> cached \<times> cache" where
  "check_dmarc cache now later dns domain_name =
     (if domain_name = [] \<or> strip domain_name = []
      then (DmarcResult \<lparr>has_dmarc = False, policy = None, domain = domain_name\<rparr>, cache)
      else
        (let cache_key = ''dmarc_'' @ domain_name;
             (hit, cache) = get_cache cache now cache_key 300
         in case hit of
              Some val \<Rightarrow> (val, cache)
            | None \<Rightarrow>
                (let result =
                       (case resolve dns (''_dmarc.'' @ domain_name) of
                          DnsFailure \<Rightarrow>
                            \<lparr>has_dmarc = False, policy = None, domain = domain_name\<rparr>
                        | TxtRecords records \<Rightarrow>
                            (case find_dmarc records of
                               Some p \<Rightarrow>
                                 \<lparr>has_dmarc = True, policy = Some p, domain = domain_name\<rparr>
                             | None \<Rightarrow>
                                 \<lparr>has_dmarc = False, policy = None, domain = domain_name\<rparr>))
                 in (DmarcResult result, set_cache cache later cache_key (DmarcResult result)))))"

text \<open>
  What the TLS connection of \<^verbatim>\<open>get_certificate_stats\<close> gives: an exception anywhere
  in the \<^verbatim>\<open>try\<close> block (connection, handshake, or \<^verbatim>\<open>strptime\<close> on a malformed date),
  a certificate without \<^verbatim>\<open>notAfter\<close>, or the parsed expiry date, in seconds.
  \<^verbatim>\<open>datetime.now()\<close> is the argument \<open>today\<close>, in seconds too; the \<^verbatim>\<open>days\<close> of
  a \<^verbatim>\<open>timedelta\<close> is the floor of its length in days.
\<close>

datatype tls_answer = TlsFailure | NotAfterMissing | NotAfter real

text \<open>
  The hosts that answer on port 443, each with what its connection gives; the connection
  to any other host fails.
\<close>

type_synonym network = "(string \<times> tls_answer) list"

definition getpeercert :: "network \<Rightarrow> string \<Rightarrow> tls_answer" where
  "getpeercert net host = (case map_of net host of None \<Rightarrow> TlsFailure | Some a \<Rightarrow> a)"

definition get_certificate_stats ::
  "cache \<Rightarrow> real \<Rightarrow> real \<Rightarrow> network \<Rightarrow> real \<Rightarrow> string \<Rightarrow> cached \<times> cache" where
  "get_certificate_stats cache now later net today domain_name =
     (if domain_name = [] \<or> strip domain_name = []
      then (CertificateStats \<lparr>valid = False, daysRemaining = 0, grade = ''F''\<rparr>, cache)
      else
        (let cache_key = ''ssl_'' @ domain_name;
             (hit, cache) = get_cache cache now cache_key 300
         in case hit of
              Some val \<Rightarrow> (val, cache)
            | None \<Rightarrow>
                (let result =
                       (case getpeercert net domain_name of
                          NotAfter exp_date \<Rightarrow>
                            (let days_remaining = \<lfloor>(exp_date - today) / 86400\<rfloor>;
                                 g = (if days_remaining < 0 then ''F''
                                      else if days_remaining < 7 then ''F''
                                      else if days_remaining < 30 then ''C''
                                      else if days_remaining < 60 then ''B''
                                      else ''A'')
                             in \<lparr>valid = (days_remaining > 0),
                                 daysRemaining = days_remaining, grade = g\<rparr>)
                        | _ \<Rightarrow> \<lparr>valid = False, daysRemaining = 0, grade = ''F''\<rparr>)
                 in (CertificateStats result,
                     set_cache cache later cache_key (CertificateStats result)))))"

section \<open>The specification's formulas\<close>

text \<open>
  The definitions of this section follow the words of the specification, not the code:
  closed formulas to compare the iterations of the code with.
\<close>

definition spec_weighted_points :: "scores \<Rightarrow> criterion \<Rightarrow> real" where
  "spec_weighted_points scores c =
     (of_int (case map_of scores (c_id c) of None \<Rightarrow> 0 | Some m \<Rightarrow> m) / 5)
       * (case points c of None \<Rightarrow> 0 | Some p \<Rightarrow> p)"

definition spec_total_score :: "scores \<Rightarrow> criterion list \<Rightarrow> real" where
  "spec_total_score scores criteria = (\<Sum>c\<leftarrow>criteria. spec_weighted_points scores c)"

text \<open>The sum of the absolute values of the same terms: the scale of the rounding errors.\<close>

definition spec_abs_total_score :: "scores \<Rightarrow> criterion list \<Rightarrow> real" where
  "spec_abs_total_score scores criteria = (\<Sum>c\<leftarrow>criteria. \<bar>spec_weighted_points scores c\<bar>)"

definition total_points :: "criterion list \<Rightarrow> real" where
  "total_points criteria = (\<Sum>c\<leftarrow>criteria. case points c of None \<Rightarrow> 0 | Some p \<Rightarrow> p)"

text \<open>
  The weight of a question in the words of the specification: 3 for \<^verbatim>\<open>Critical\<close>, 2 for
  \<^verbatim>\<open>High\<close>, else 1. The answered questions of a list, in its order, each as its
  weight and its answer.
\<close>

definition spec_weight :: "question \<Rightarrow> int" where
  "spec_weight q =
     (case weight q of
        None \<Rightarrow> 1
      | Some w \<Rightarrow> if w = ''Critical'' then 3 else if w = ''High'' then 2 else 1)"

definition spec_answered :: "answers \<Rightarrow> question list \<Rightarrow> (int \<times> int) list" where
  "spec_answered answers questions =
     List.map_filter
       (\<lambda>q. case map_of answers (q_id q) of
               Some (Some a) \<Rightarrow> Some (spec_weight q, a)
             | _ \<Rightarrow> None)
       questions"

text \<open>
  The weighted mean of the contributions (6 - a) / 5, in exact arithmetic; and the
  percentage as doubles give it, summing from the left and rounding each operation with
  \<open>fl\<close>.
\<close>

definition spec_weighted_mean :: "answers \<Rightarrow> question list \<Rightarrow> real" where
  "spec_weighted_mean answers questions =
     (\<Sum>(w, a)\<leftarrow>spec_answered answers questions. of_int w * ((6 - of_int a) / 5))
     / (\<Sum>(w, a)\<leftarrow>spec_answered answers questions. of_int w)"

definition fl_sum :: "(real \<Rightarrow> real) \<Rightarrow> real list \<Rightarrow> real" where
  "fl_sum fl xs = foldl (\<lambda>s x. fl (s + x)) 0 xs"

definition spec_weighted_percentage :: "(real \<Rightarrow> real) \<Rightarrow> answers \<Rightarrow> question list \<Rightarrow> real" where
  "spec_weighted_percentage fl answers questions =
     fl (fl (fl_sum fl (map (\<lambda>(w, a). fl (fl ((6 - of_int a) / 5) * of_int w))
                          (spec_answered answers questions))
             / of_int (\<Sum>(w, a)\<leftarrow>spec_answered answers questions. w))
         * 100)"

text \<open>
  The same mean of the absolute values of the contributions. It is the weighted mean
  itself when no answer is above 6, and the rounding errors of a sum are relative to it.
\<close>

definition spec_weighted_abs_mean :: "answers \<Rightarrow> question list \<Rightarrow> real" where
  "spec_weighted_abs_mean answers questions =
     (\<Sum>(w, a)\<leftarrow>spec_answered answers questions. \<bar>of_int w * ((6 - of_int a) / 5)\<bar>)
     / (\<Sum>(w, a)\<leftarrow>spec_answered answers questions. of_int w)"

definition spec_mean :: "int list \<Rightarrow> real option" where
  "spec_mean xs = (if xs = [] then None else Some (of_int (sum_list xs) / of_nat (length xs)))"

definition clamp :: "real \<Rightarrow> real \<Rightarrow> real \<Rightarrow> real" where
  "clamp x lo hi = max lo (min hi x)"

definition spec_impact_likelihood :: "answers \<Rightarrow> (real \<times> real) option" where
  "spec_impact_likelihood answers =
     (if answers = [] then Some (3, 3)
      else case spec_mean (List.map_filter snd answers) of
             None \<Rightarrow> None
           | Some m \<Rightarrow> Some (clamp (6 - m / (12 / 10)) 1 5, clamp (6 - m / (12 / 10)) 1 5))"

definition spec_grade :: "int \<Rightarrow> string" where
  "spec_grade days =
     (if days < 0 \<or> days < 7 then ''F''
      else if days < 30 then ''C''
      else if days < 60 then ''B''
      else ''A'')"

text \<open>
  The entries that \<^const>\<open>get_certificate_stats\<close> leaves in the cache, under its keys
  \<^verbatim>\<open>ssl_<domain>\<close>: certificate results whose grade is the grade of their days.
\<close>

definition cert_cache_ok :: "cache \<Rightarrow> bool" where
  "cert_cache_ok cache =
     (\<forall>d v t. cache (''ssl_'' @ d) = Some (v, t) \<longrightarrow>
        (\<exists>r. v = CertificateStats r \<and> grade r = spec_grade (daysRemaining r)))"

text \<open>The claim's test of a TXT record: its text starts with \<^verbatim>\<open>v=DMARC1\<close>.\<close>

definition spec_is_dmarc :: "string list \<Rightarrow> bool" where
  "spec_is_dmarc record = prefix ''v=DMARC1'' (concat record)"

section \<open>Properties of rounding\<close>

lemma py_round_of_int: "py_round (of_int n) = n"
  by (simp add: py_round_def Let_def)

lemma py_round_numeral: "py_round (numeral k) = numeral k"
  using py_round_of_int [of "numeral k"] by simp

lemma py_round_near: "\<bar>of_int (py_round x) - x\<bar> \<le> 1 / 2"
  unfolding py_round_def Let_def by (auto; linarith)

lemma py_round_bounds: "\<lfloor>x\<rfloor> \<le> py_round x \<and> py_round x \<le> \<lfloor>x\<rfloor> + 1"
  by (simp add: py_round_def Let_def)

lemma py_round_mono:
  assumes "x \<le> y"
  shows "py_round x \<le> py_round y"
proof (cases "\<lfloor>x\<rfloor> = \<lfloor>y\<rfloor>")
  case True
  with assms show ?thesis
    by (auto simp: py_round_def Let_def)
next
  case False
  from assms have "\<lfloor>x\<rfloor> \<le> \<lfloor>y\<rfloor>" by (rule floor_mono)
  with False have "\<lfloor>x\<rfloor> + 1 \<le> \<lfloor>y\<rfloor>" by simp
  with py_round_bounds [of x] py_round_bounds [of y] show ?thesis by linarith
qed

lemma py_round_max: "py_round (max x y) = max (py_round x) (py_round y)"
proof (cases "x \<le> y")
  case True
  then show ?thesis using py_round_mono [of x y] by (simp add: max_def)
next
  case False
  then have "y \<le> x" by simp
  then show ?thesis using py_round_mono [of y x] by (simp add: max_def)
qed

lemma py_round_unique:
  assumes "\<bar>x - of_int k\<bar> < 1 / 2"
  shows "py_round x = k"
proof -
  have "\<bar>real_of_int (py_round x) - of_int k\<bar> < 1"
    using py_round_near [of x] assms by linarith
  then have "\<bar>real_of_int (py_round x - k)\<bar> < 1" by simp
  then have "\<bar>py_round x - k\<bar> < 1" by linarith
  then show ?thesis by linarith
qed

subsection \<open>Binary64 rounding\<close>

lemma py_round_range:
  "of_int lo \<le> x \<Longrightarrow> x \<le> of_int hi \<Longrightarrow> lo \<le> py_round x \<and> py_round x \<le> hi"
  using py_round_mono [of "of_int lo" x] py_round_mono [of x "of_int hi"]
  by (simp add: py_round_of_int)

lemma fl64_zero: "fl64 0 = 0"
  by (simp add: fl64_def)

lemma fl64_pos:
  assumes "0 < x"
  shows "fl64 x = of_int (py_round (x / 2 powr of_int (\<lfloor>log 2 x\<rfloor> - 52)))
                    * 2 powr of_int (\<lfloor>log 2 x\<rfloor> - 52)"
  using assms by (simp add: fl64_def Let_def)

lemma binade:
  assumes "0 < x"
  shows "2 powr of_int \<lfloor>log 2 x\<rfloor> \<le> x \<and> x < 2 powr of_int (\<lfloor>log 2 x\<rfloor> + 1)"
  using assms floor_log_eq_powr_iff [of x 2 "\<lfloor>log 2 x\<rfloor>"] by simp

lemma scaled_range:
  assumes "0 < x"
  shows "2 ^ 52 \<le> x / 2 powr of_int (\<lfloor>log 2 x\<rfloor> - 52) \<and>
         x / 2 powr of_int (\<lfloor>log 2 x\<rfloor> - 52) \<le> 2 ^ 53"
proof -
  define e where "e = \<lfloor>log 2 x\<rfloor>"
  define t where "t = x / 2 powr of_int e"
  have s: "(2::real) powr of_int (e - 52) = 2 powr of_int e / 2 ^ 52"
    by (simp add: powr_diff)
  have s1: "(2::real) powr of_int (e + 1) = 2 powr of_int e * 2"
    by (simp add: powr_add)
  have p: "0 < (2::real) powr real_of_int e" by simp
  from binade [OF assms] have b: "2 powr of_int e \<le> x" "x < 2 powr of_int e * 2"
    unfolding e_def [symmetric] s1 by simp_all
  have t1: "1 \<le> t" unfolding t_def using b(1) p by simp
  have t2: "t \<le> 2" unfolding t_def using b(2) p by (simp add: field_simps)
  have eq: "x / 2 powr of_int (e - 52) = t * 2 ^ 52"
    unfolding s t_def by simp
  have "(2 ^ 52 :: real) = 1 * 2 ^ 52" by simp
  also have "\<dots> \<le> t * 2 ^ 52" using t1 by (intro mult_right_mono) simp_all
  finally have lo: "(2 ^ 52 :: real) \<le> t * 2 ^ 52" .
  have "t * 2 ^ 52 \<le> 2 * 2 ^ 52" using t2 by (intro mult_right_mono) simp_all
  also have "\<dots> = (2 ^ 53 :: real)" by simp
  finally have hi: "t * 2 ^ 52 \<le> (2 ^ 53 :: real)" .
  from lo hi show ?thesis unfolding e_def [symmetric] eq by simp
qed

lemma fl64_bounds:
  assumes "0 < x"
  shows "2 powr of_int \<lfloor>log 2 x\<rfloor> \<le> fl64 x \<and> fl64 x \<le> 2 powr of_int (\<lfloor>log 2 x\<rfloor> + 1)"
proof -
  define e where "e = \<lfloor>log 2 x\<rfloor>"
  define m where "m = x / 2 powr of_int (e - 52)"
  have r: "2 ^ 52 \<le> py_round m \<and> py_round m \<le> 2 ^ 53"
    using scaled_range [OF assms] py_round_range [of "2 ^ 52" m "2 ^ 53"]
    unfolding m_def e_def by simp
  have s: "(2::real) powr of_int (e - 52) = 2 powr of_int e / 2 ^ 52"
    by (simp add: powr_diff)
  have s1: "(2::real) powr of_int (e + 1) = 2 powr of_int e * 2"
    by (simp add: powr_add)
  have f: "fl64 x = real_of_int (py_round m) * (2 powr of_int e / 2 ^ 52)"
    unfolding fl64_pos [OF assms] m_def e_def s [unfolded e_def] ..
  have p: "0 < (2::real) powr real_of_int e" by simp
  have lo: "(2 ^ 52 :: real) \<le> of_int (py_round m)" using r
    by (metis of_int_le_iff of_int_numeral of_int_power)
  have hi: "of_int (py_round m) \<le> (2 ^ 53 :: real)" using r
    by (metis of_int_le_iff of_int_numeral of_int_power)
  have "(2::real) powr of_int e = 2 ^ 52 * (2 powr of_int e / 2 ^ 52)" by simp
  also have "\<dots> \<le> real_of_int (py_round m) * (2 powr of_int e / 2 ^ 52)"
    using lo p by (intro mult_right_mono) simp_all
  finally have 1: "2 powr of_int e \<le> fl64 x" unfolding f .
  have "real_of_int (py_round m) * (2 powr of_int e / 2 ^ 52) \<le> 2 ^ 53 * (2 powr of_int e / 2 ^ 52)"
    using hi p by (intro mult_right_mono) simp_all
  also have "\<dots> = (2::real) powr of_int e * 2" by simp
  finally have 2: "fl64 x \<le> 2 powr of_int (e + 1)" unfolding f s1 .
  from 1 2 show ?thesis unfolding e_def by simp
qed

lemma fl64_mono_pos:
  assumes "0 < x" and "x \<le> y"
  shows "fl64 x \<le> fl64 y"
proof -
  have y: "0 < y" using assms by simp
  have le: "\<lfloor>log 2 x\<rfloor> \<le> \<lfloor>log 2 y\<rfloor>"
    using assms by (intro floor_mono) simp
  show ?thesis
  proof (cases "\<lfloor>log 2 x\<rfloor> = \<lfloor>log 2 y\<rfloor>")
    case True
    have "x / 2 powr of_int (\<lfloor>log 2 y\<rfloor> - 52) \<le> y / 2 powr of_int (\<lfloor>log 2 y\<rfloor> - 52)"
      using assms(2) by (simp add: divide_right_mono)
    then have "py_round (x / 2 powr of_int (\<lfloor>log 2 y\<rfloor> - 52))
                 \<le> py_round (y / 2 powr of_int (\<lfloor>log 2 y\<rfloor> - 52))"
      by (rule py_round_mono)
    then show ?thesis
      unfolding fl64_pos [OF assms(1)] fl64_pos [OF y] True
      by (intro mult_right_mono) simp_all
  next
    case False
    with le have "\<lfloor>log 2 x\<rfloor> + 1 \<le> \<lfloor>log 2 y\<rfloor>" by simp
    then have "(2::real) powr of_int (\<lfloor>log 2 x\<rfloor> + 1) \<le> 2 powr of_int \<lfloor>log 2 y\<rfloor>"
      by (intro powr_mono) simp_all
    with fl64_bounds [OF assms(1)] fl64_bounds [OF y] show ?thesis by linarith
  qed
qed

lemma fl64_nonneg: "0 \<le> x \<Longrightarrow> 0 \<le> fl64 x"
proof (cases "x = 0")
  case True
  then show ?thesis by (simp add: fl64_zero)
next
  case False
  assume "0 \<le> x"
  with False have "0 < x" by simp
  from fl64_bounds [OF this] show ?thesis
    by (smt (verit) powr_gt_zero)
qed

lemma fl64_mono: "0 \<le> x \<Longrightarrow> x \<le> y \<Longrightarrow> fl64 x \<le> fl64 y"
  by (cases "x = 0") (simp_all add: fl64_zero fl64_nonneg fl64_mono_pos)

lemma fl64_small_int:
  assumes "0 \<le> n" and "n \<le> 100"
  shows "fl64 (of_int n) = of_int n"
proof (cases "n = 0")
  case True
  then show ?thesis by (simp add: fl64_zero)
next
  case False
  with assms have pos: "0 < real_of_int n" by simp
  define e where "e = \<lfloor>log 2 (of_int n)\<rfloor>"
  have b: "(2::real) powr of_int e \<le> of_int n" "real_of_int n < 2 powr of_int (e + 1)"
    using binade [OF pos] unfolding e_def by simp_all
  have e0: "0 \<le> e"
    unfolding e_def using assms False by (simp add: zero_le_log_cancel_iff)
  have e6: "e \<le> 6"
  proof (rule ccontr)
    assume "\<not> e \<le> 6"
    then have "7 \<le> e" by simp
    then have "(2::real) powr 7 \<le> 2 powr of_int e" by (intro powr_mono) simp_all
    with b(1) assms(2) show False by simp
  qed
  have s: "(2::real) powr of_int (e - 52) = 1 / 2 ^ nat (52 - e)"
    using e0 e6 by (simp add: powr_realpow [symmetric] powr_minus_divide [symmetric])
  have "real_of_int n / 2 powr of_int (e - 52) = real_of_int (n * 2 ^ nat (52 - e))"
    unfolding s by simp
  then have "py_round (real_of_int n / 2 powr of_int (e - 52)) = n * 2 ^ nat (52 - e)"
    by (simp only: py_round_of_int)
  then show ?thesis
    unfolding fl64_pos [OF pos] e_def [symmetric] s by simp
qed

lemma monotone_rounding_fl64: "monotone_rounding fl64"
  by (simp add: monotone_rounding_def fl64_mono fl64_small_int)

lemma monotone_rounding_exact: "monotone_rounding exact"
  by (simp add: monotone_rounding_def exact_def)

text \<open>
  The value of \<^const>\<open>fl64\<close> at a number other than 0, once its binary exponent \<open>k\<close>
  is known: the number is scaled to 53 bits, rounded, and scaled back.
\<close>

lemma fl64_value:
  assumes "x \<noteq> 0" and "2 powr of_int k \<le> \<bar>x\<bar>" and "\<bar>x\<bar> < 2 powr of_int (k + 1)"
    and "of_int (py_round (x / 2 powr of_int (k - 52))) * 2 powr of_int (k - 52) = y"
  shows "fl64 x = y"
proof -
  have "\<lfloor>log 2 \<bar>x\<bar>\<rfloor> = k"
    using assms(1-3) by (simp add: floor_log_eq_powr_iff)
  with assms(1,4) show ?thesis by (simp add: fl64_def Let_def)
qed

subsection \<open>Roundings of bounded relative error\<close>

lemma fl64_accurate: "accurate_rounding fl64 (1 / 2 ^ 53)"
proof -
  have "\<bar>fl64 x - x\<bar> \<le> 1 / 2 ^ 53 * \<bar>x\<bar>" for x
  proof (cases "x = 0")
    case True
    then show ?thesis by (simp add: fl64_zero)
  next
    case False
    define e where "e = \<lfloor>log 2 \<bar>x\<bar>\<rfloor>"
    define s where "s = (2::real) powr of_int (e - 52)"
    define m where "m = x / s"
    have sp: "0 < s" unfolding s_def by simp
    have ax: "0 < \<bar>x\<bar>" using False by simp
    have am: "\<bar>m\<bar> = \<bar>x\<bar> / s" unfolding m_def using sp by (simp add: abs_divide)
    have "2 ^ 52 \<le> \<bar>x\<bar> / s"
      using scaled_range [OF ax] unfolding e_def s_def by simp
    then have big: "2 ^ 52 * s \<le> \<bar>x\<bar>"
      using sp by (simp add: pos_le_divide_eq)
    have f: "fl64 x = of_int (py_round m) * s"
      using False by (simp add: fl64_def Let_def e_def s_def m_def)
    have x: "x = m * s" unfolding m_def using sp by simp
    have "\<bar>fl64 x - x\<bar> = \<bar>of_int (py_round m) - m\<bar> * s"
      unfolding f using sp by (subst x) (simp add: abs_mult flip: left_diff_distrib)
    also have "\<dots> \<le> 1 / 2 * s"
      using py_round_near [of m] sp by (intro mult_right_mono) simp_all
    also have "\<dots> = 1 / 2 ^ 53 * (2 ^ 52 * s)" by simp
    also have "\<dots> \<le> 1 / 2 ^ 53 * \<bar>x\<bar>"
      using big by (intro mult_left_mono) simp_all
    finally show ?thesis .
  qed
  then show ?thesis by (simp add: accurate_rounding_def)
qed

lemma accurate_step:
  assumes "accurate_rounding fl u"
    and "\<bar>a' - a\<bar> \<le> B * ((1 + u) ^ k - 1)" and "\<bar>a\<bar> \<le> B"
  shows "\<bar>fl a' - a\<bar> \<le> B * ((1 + u) ^ Suc k - 1)"
proof -
  have u: "0 \<le> u" and acc: "\<bar>fl a' - a'\<bar> \<le> u * \<bar>a'\<bar>"
    using assms(1) unfolding accurate_rounding_def by blast+
  have "\<bar>a'\<bar> \<le> \<bar>a\<bar> + \<bar>a' - a\<bar>" by simp
  also have "\<dots> \<le> B + B * ((1 + u) ^ k - 1)" using assms(2,3) by simp
  also have "\<dots> = B * (1 + u) ^ k" by (simp add: algebra_simps)
  finally have a': "\<bar>a'\<bar> \<le> B * (1 + u) ^ k" .
  have "\<bar>fl a' - a\<bar> \<le> \<bar>fl a' - a'\<bar> + \<bar>a' - a\<bar>" by simp
  also have "\<dots> \<le> u * \<bar>a'\<bar> + B * ((1 + u) ^ k - 1)" using acc assms(2) by simp
  also have "\<dots> \<le> u * (B * (1 + u) ^ k) + B * ((1 + u) ^ k - 1)"
    using a' u by (simp add: mult_left_mono)
  also have "\<dots> = B * ((1 + u) ^ Suc k - 1)" by (simp add: algebra_simps)
  finally show ?thesis .
qed

lemma power_factor_mono:
  assumes "0 \<le> u" and "j \<le> k" and "0 \<le> B"
  shows "B * ((1 + u) ^ j - 1) \<le> B * ((1 + u :: real) ^ k - 1)"
proof -
  have "(1 + u) ^ j \<le> (1 + u) ^ k"
    using assms(1,2) by (intro power_increasing) simp_all
  then show ?thesis using assms(3) by (simp add: mult_left_mono)
qed

lemma power_bound:
  assumes "0 \<le> u" and "real k * u < 1"
  shows "(1 + u) ^ k \<le> 1 / (1 - real k * u)"
proof (cases "k = 0")
  case True
  then show ?thesis by simp
next
  case False
  then have "1 \<le> real k" by simp
  then have "1 * u \<le> real k * u" using assms(1) by (rule mult_right_mono)
  then have "u \<le> real k * u" by simp
  with assms(2) have u1: "u < 1" by linarith
  have "1 + real k * (- u) \<le> (1 + (- u)) ^ k"
    by (rule Bernoulli_inequality) (use u1 in simp)
  then have b: "1 - real k * u \<le> (1 - u) ^ k" by simp
  have "(1 + u) ^ k * (1 - u) ^ k = ((1 + u) * (1 - u)) ^ k"
    by (simp add: power_mult_distrib)
  also have "\<dots> \<le> 1"
  proof (rule power_le_one)
    show "0 \<le> (1 + u) * (1 - u)" using assms(1) u1 by simp
    have "(1 + u) * (1 - u) = 1 - u * u" by (simp add: algebra_simps)
    also have "\<dots> \<le> 1" by simp
    finally show "(1 + u) * (1 - u) \<le> 1" .
  qed
  finally have p: "(1 + u) ^ k * (1 - u) ^ k \<le> 1" .
  have "(1 + u) ^ k * (1 - real k * u) \<le> (1 + u) ^ k * (1 - u) ^ k"
    using b assms(1) by (intro mult_left_mono) simp_all
  with p have "(1 + u) ^ k * (1 - real k * u) \<le> 1" by linarith
  then show ?thesis
    using assms(2) by (simp add: pos_le_divide_eq)
qed

lemma fl64_power_bound:
  assumes "k \<le> 2 ^ j" and "j \<le> 47"
  shows "(1 + 1 / 2 ^ 53 :: real) ^ k \<le> 1 + 1 / 2 ^ (52 - j)"
proof -
  define u :: real where "u = 1 / 2 ^ 53"
  have j: "(2::real) ^ j * 2 ^ (53 - j) = 2 ^ 53"
    using assms(2) by (simp flip: power_add)
  have "real k \<le> 2 ^ j" using assms(1) by (metis of_nat_le_iff of_nat_numeral of_nat_power)
  then have "real k * u \<le> 2 ^ j * u" unfolding u_def by (intro mult_right_mono) simp_all
  also have "\<dots> = 1 / 2 ^ (53 - j)"
    unfolding u_def using j by (simp add: field_simps)
  finally have ku: "real k * u \<le> 1 / 2 ^ (53 - j)" .
  have "(2::real) ^ 1 \<le> 2 ^ (53 - j)" using assms(2) by (intro power_increasing) simp_all
  then have two: "(2::real) \<le> 2 ^ (53 - j)" by simp
  then have half: "1 / (2::real) ^ (53 - j) \<le> 1 / 2"
    by (simp add: field_simps)
  have lt: "real k * u < 1" using ku half by linarith
  have "(1 + u) ^ k \<le> 1 / (1 - real k * u)"
    by (rule power_bound [OF _ lt]) (simp add: u_def)
  also have "\<dots> \<le> 1 / (1 - 1 / 2 ^ (53 - j))"
  proof (rule divide_left_mono)
    show "1 - 1 / 2 ^ (53 - j) \<le> 1 - real k * u" using ku by simp
    show "(0::real) \<le> 1" by simp
    have "0 < 1 - real k * u" using lt by simp
    moreover have "(0::real) < 1 - 1 / 2 ^ (53 - j)" using half by linarith
    ultimately show "0 < (1 - real k * u) * (1 - 1 / 2 ^ (53 - j))" by (rule mult_pos_pos)
  qed
  also have "\<dots> \<le> 1 + 1 / 2 ^ (52 - j)"
  proof -
    define t :: real where "t = 1 / 2 ^ (53 - j)"
    have t: "0 \<le> t" "t \<le> 1 / 2" unfolding t_def using half by simp_all
    have "(2::real) ^ (53 - j) = 2 * 2 ^ (52 - j)"
      using assms(2) by (simp add: Suc_diff_le flip: power_Suc)
    then have tt: "1 / 2 ^ (52 - j) = 2 * t" unfolding t_def by simp
    have "1 \<le> (1 + 2 * t) * (1 - t)"
    proof -
      have "(1 + 2 * t) * (1 - t) = 1 + t * (1 - 2 * t)" by (simp add: algebra_simps)
      moreover have "0 \<le> t * (1 - 2 * t)" using t by (intro mult_nonneg_nonneg) simp_all
      ultimately show ?thesis by linarith
    qed
    then have "1 / (1 - t) \<le> 1 + 2 * t"
      using t by (simp add: pos_divide_le_eq)
    then show ?thesis unfolding tt t_def .
  qed
  finally show ?thesis unfolding u_def .
qed

subsection \<open>The OSINT floor\<close>

lemma osint_floor_None: "osint_floor None v = v"
  by (simp add: osint_floor_def)

lemma osint_floor_ge: "v \<le> osint_floor osint_results (v :: 'a :: linordered_idom)"
  by (auto simp: osint_floor_def Let_def split: option.splits)

lemma osint_floor_ssl:
  "ssl r = Some ''F'' \<or> ssl r = Some ''Expired'' \<Longrightarrow>
   osint_floor (Some r) (v :: 'a :: linordered_idom) = max v 80"
  by (auto simp: osint_floor_def Let_def)

lemma osint_floor_dmarc:
  "dmarc r = Some False \<Longrightarrow> 60 \<le> osint_floor (Some r) (v :: 'a :: linordered_idom)"
  by (auto simp: osint_floor_def Let_def)

lemma osint_floor_mono_ssl:
  "ssl r = Some ''F'' \<or> ssl r = Some ''Expired'' \<Longrightarrow>
   osint_floor (Some (r\<lparr>ssl := s\<rparr>)) v \<le> osint_floor (Some r) (v :: 'a :: linordered_idom)"
  by (auto simp: osint_floor_def Let_def)

lemma osint_floor_mono_dmarc:
  "dmarc r = Some False \<Longrightarrow>
   osint_floor (Some (r\<lparr>dmarc := d\<rparr>)) v \<le> osint_floor (Some r) (v :: 'a :: linordered_idom)"
  by (auto simp: osint_floor_def Let_def)

lemma osint_floor_le_100:
  "v \<le> 100 \<Longrightarrow> osint_floor osint_results (v :: 'a :: linordered_idom) \<le> 100"
  by (auto simp: osint_floor_def Let_def split: option.splits)

lemma py_round_osint_floor:
  "py_round (osint_floor osint_results v) = osint_floor osint_results (py_round v)"
  by (simp add: osint_floor_def Let_def py_round_max py_round_numeral split: option.splits)

text \<open>
  Both calculators return the floor of what they return without OSINT results: rounding
  commutes with the floor, and the early returns of 100 are above both floors.
\<close>

lemma calc_vulnerability_floor:
  "calc_vulnerability fl answers questions osint_results =
   osint_floor osint_results (calc_vulnerability fl answers questions None)"
proof -
  have h: "osint_floor osint_results (100::int) = 100"
    using osint_floor_ge [of "100::int" osint_results] osint_floor_le_100 [of "100::int" osint_results]
    by simp
  show ?thesis
    by (simp add: calc_vulnerability_def h osint_floor_None py_round_osint_floor
        split: prod.splits)
qed

lemma cloud_vulnerability_floor:
  "vulnerability (calc_cloud_vulnerability fl scores criteria osint_results) =
   osint_floor osint_results (vulnerability (calc_cloud_vulnerability fl scores criteria None))"
  by (simp add: calc_cloud_vulnerability_def Let_def osint_floor_None split: prod.splits)

section \<open>Standard track: vulnerability of an assessment\<close>

lemma vuln_loop_unmatched:
  "\<forall>q \<in> set questions. map_of answers (q_id q) = None \<or> map_of answers (q_id q) = Some None \<Longrightarrow>
   vuln_loop fl answers questions acc = acc"
proof (induction questions arbitrary: acc)
  case Nil
  then show ?case by simp
next
  case (Cons q qs)
  then show ?case by (cases acc) auto
qed

text \<open>
  Claim C5. \<^const>\<open>calc_vulnerability\<close> returns exactly 100 when the answers are empty,
  for every list of questions and every OSINT result; and it returns 100 when no question
  of the list has an answer that is not null: the loop then leaves \<^verbatim>\<open>total_weight\<close> at 0,
  and a \<^verbatim>\<open>total_weight\<close> of 0 gives 100.
\<close>

theorem no_data_is_worst_case:
  "calc_vulnerability fl [] questions osint_results = 100 \<and>
   ((\<forall>q \<in> set questions. map_of answers (q_id q) = None \<or> map_of answers (q_id q) = Some None)
      \<longrightarrow> fst (vuln_loop fl answers questions (0, 0)) = 0) \<and>
   (fst (vuln_loop fl answers questions (0, 0)) = 0
      \<longrightarrow> calc_vulnerability fl answers questions osint_results = 100)"
  by (auto simp: calc_vulnerability_def vuln_loop_unmatched split: prod.splits)

text \<open>
  Witness for C5: two answers, one of them null and the other for a question that is not
  in the list, under OSINT results that would floor at 80.
\<close>

theorem no_data_is_worst_case_witness:
  "map_of [(1 :: int, None), (7, Some (4 :: int))] 1 = Some None \<and>
   map_of [(1 :: int, None), (7, Some (4 :: int))] 2 = None \<and>
   fst (vuln_loop fl64 [(1, None), (7, Some 4)]
          [\<lparr>q_id = 1, weight = Some ''Critical''\<rparr>, \<lparr>q_id = 2, weight = None\<rparr>] (0, 0)) = 0 \<and>
   calc_vulnerability fl64 [(1, None), (7, Some 4)]
     [\<lparr>q_id = 1, weight = Some ''Critical''\<rparr>, \<lparr>q_id = 2, weight = None\<rparr>]
     (Some \<lparr>ransomware = None, ssl = Some ''F'', dmarc = None\<rparr>) = 100"
  using no_data_is_worst_case
    [of fl64 "[\<lparr>q_id = 1, weight = Some ''Critical''\<rparr>, \<lparr>q_id = 2, weight = None\<rparr>]"
        "Some \<lparr>ransomware = None, ssl = Some ''F'', dmarc = None\<rparr>"
        "[(1, None), (7, Some 4)]"]
  by simp

text \<open>
  Claim C2. The OSINT floor never lowers the vulnerability, in the standard track and in
  the cloud track alike. With \<^verbatim>\<open>ssl\<close> equal to \<^verbatim>\<open>'F'\<close> or \<^verbatim>\<open>'Expired'\<close> the result is at
  least 80, at least the result with any other value \<open>s\<close> of \<^verbatim>\<open>ssl\<close>, and at least the
  result with no OSINT results. With \<^verbatim>\<open>dmarc\<close> equal to \<^verbatim>\<open>False\<close> it is at least 60, at
  least the result with any other value \<open>d\<close> of \<^verbatim>\<open>dmarc\<close>, and at least the result with
  no OSINT results. With both, it is the maximum of 80 and the result with no OSINT
  results.
\<close>

theorem osint_floor_monotone:
  "(ssl r = Some ''F'' \<or> ssl r = Some ''Expired'' \<longrightarrow>
      80 \<le> calc_vulnerability fl answers questions (Some r) \<and>
      calc_vulnerability fl answers questions (Some (r\<lparr>ssl := s\<rparr>))
        \<le> calc_vulnerability fl answers questions (Some r) \<and>
      calc_vulnerability fl answers questions None
        \<le> calc_vulnerability fl answers questions (Some r)) \<and>
   (dmarc r = Some False \<longrightarrow>
      60 \<le> calc_vulnerability fl answers questions (Some r) \<and>
      calc_vulnerability fl answers questions (Some (r\<lparr>dmarc := d\<rparr>))
        \<le> calc_vulnerability fl answers questions (Some r) \<and>
      calc_vulnerability fl answers questions None
        \<le> calc_vulnerability fl answers questions (Some r)) \<and>
   ((ssl r = Some ''F'' \<or> ssl r = Some ''Expired'') \<and> dmarc r = Some False \<longrightarrow>
      calc_vulnerability fl answers questions (Some r)
        = max (calc_vulnerability fl answers questions None) 80) \<and>
   (ssl r = Some ''F'' \<or> ssl r = Some ''Expired'' \<longrightarrow>
      80 \<le> vulnerability (calc_cloud_vulnerability fl scores criteria (Some r)) \<and>
      vulnerability (calc_cloud_vulnerability fl scores criteria (Some (r\<lparr>ssl := s\<rparr>)))
        \<le> vulnerability (calc_cloud_vulnerability fl scores criteria (Some r)) \<and>
      vulnerability (calc_cloud_vulnerability fl scores criteria None)
        \<le> vulnerability (calc_cloud_vulnerability fl scores criteria (Some r))) \<and>
   (dmarc r = Some False \<longrightarrow>
      60 \<le> vulnerability (calc_cloud_vulnerability fl scores criteria (Some r)) \<and>
      vulnerability (calc_cloud_vulnerability fl scores criteria (Some (r\<lparr>dmarc := d\<rparr>)))
        \<le> vulnerability (calc_cloud_vulnerability fl scores criteria (Some r)) \<and>
      vulnerability (calc_cloud_vulnerability fl scores criteria None)
        \<le> vulnerability (calc_cloud_vulnerability fl scores criteria (Some r))) \<and>
   ((ssl r = Some ''F'' \<or> ssl r = Some ''Expired'') \<and> dmarc r = Some False \<longrightarrow>
      vulnerability (calc_cloud_vulnerability fl scores criteria (Some r))
        = max (vulnerability (calc_cloud_vulnerability fl scores criteria None)) 80)"
proof -
  have floor_facts:
    "(ssl r = Some ''F'' \<or> ssl r = Some ''Expired'' \<longrightarrow>
        80 \<le> osint_floor (Some r) b \<and>
        osint_floor (Some (r\<lparr>ssl := s\<rparr>)) b \<le> osint_floor (Some r) b \<and>
        b \<le> osint_floor (Some r) b) \<and>
     (dmarc r = Some False \<longrightarrow>
        60 \<le> osint_floor (Some r) b \<and>
        osint_floor (Some (r\<lparr>dmarc := d\<rparr>)) b \<le> osint_floor (Some r) b \<and>
        b \<le> osint_floor (Some r) b) \<and>
     ((ssl r = Some ''F'' \<or> ssl r = Some ''Expired'') \<and> dmarc r = Some False \<longrightarrow>
        osint_floor (Some r) b = max b 80)" for b :: int
    using osint_floor_ssl [of r b] osint_floor_dmarc [of r b]
      osint_floor_mono_ssl [of r s b] osint_floor_mono_dmarc [of r d b]
      osint_floor_ge [of b "Some r"]
    by auto
  show ?thesis
    using floor_facts [of "calc_vulnerability fl answers questions None"]
      floor_facts [of "vulnerability (calc_cloud_vulnerability fl scores criteria None)"]
    unfolding calc_vulnerability_floor [of fl answers questions "Some _"]
      cloud_vulnerability_floor [of fl scores criteria "Some _"]
    by blast
qed

text \<open>
  Witness for C2: a failing certificate grade together with a missing DMARC record, for
  one answered question and one scored criterion.
\<close>

theorem osint_floor_monotone_witness:
  "ssl \<lparr>ransomware = None, ssl = Some ''F'', dmarc = Some False\<rparr> = Some ''F'' \<and>
   dmarc \<lparr>ransomware = None, ssl = Some ''F'', dmarc = Some False\<rparr> = Some False \<and>
   80 \<le> calc_vulnerability fl64 [(1, Some 5)] [\<lparr>q_id = 1, weight = Some ''High''\<rparr>]
           (Some \<lparr>ransomware = None, ssl = Some ''F'', dmarc = Some False\<rparr>) \<and>
   calc_vulnerability fl64 [(1, Some 5)] [\<lparr>q_id = 1, weight = Some ''High''\<rparr>]
       (Some \<lparr>ransomware = None, ssl = Some ''A'', dmarc = Some False\<rparr>)
     \<le> calc_vulnerability fl64 [(1, Some 5)] [\<lparr>q_id = 1, weight = Some ''High''\<rparr>]
         (Some \<lparr>ransomware = None, ssl = Some ''F'', dmarc = Some False\<rparr>) \<and>
   vulnerability (calc_cloud_vulnerability fl64 [(1, 5)]
       [\<lparr>c_id = 1, points = Some 55, criticality = Some ''Critical''\<rparr>]
       (Some \<lparr>ransomware = None, ssl = Some ''F'', dmarc = Some False\<rparr>))
     = max (vulnerability (calc_cloud_vulnerability fl64 [(1, 5)]
              [\<lparr>c_id = 1, points = Some 55, criticality = Some ''Critical''\<rparr>] None)) 80"
  using osint_floor_monotone
    [of "\<lparr>ransomware = None, ssl = Some ''F'', dmarc = Some False\<rparr>" fl64
        "[(1, Some 5)]" "[\<lparr>q_id = 1, weight = Some ''High''\<rparr>]" "Some ''A''" "Some True"
        "[(1, 5)]" "[\<lparr>c_id = 1, points = Some 55, criticality = Some ''Critical''\<rparr>]"]
  by simp

section \<open>Standard track: impact and likelihood of an assessment\<close>

text \<open>
  Claim C7. With \<^verbatim>\<open>ransomware\<close> equal to \<^verbatim>\<open>True\<close> the likelihood is exactly 5 and the
  impact is the impact computed with no OSINT results. Changing \<^verbatim>\<open>ssl\<close> and \<^verbatim>\<open>dmarc\<close> to
  any values \<open>s\<close> and \<open>d\<close> changes neither output; and OSINT results whose
  \<^verbatim>\<open>ransomware\<close> is not \<^verbatim>\<open>True\<close> give the outputs computed with no OSINT results.
\<close>

theorem ransomware_only_moves_likelihood:
  "(ransomware r = Some True \<longrightarrow>
      snd (calc_impact_likelihood answers questions (Some r)) = 5 \<and>
      fst (calc_impact_likelihood answers questions (Some r))
        = fst (calc_impact_likelihood answers questions None)) \<and>
   calc_impact_likelihood answers questions (Some (r\<lparr>ssl := s, dmarc := d\<rparr>))
     = calc_impact_likelihood answers questions (Some r) \<and>
   (ransomware r \<noteq> Some True \<longrightarrow>
      calc_impact_likelihood answers questions (Some r)
        = calc_impact_likelihood answers questions None)"
  by (simp add: calc_impact_likelihood_def Let_def split: prod.splits)

text \<open>
  Witness for C7: a ransomware hit on a vendor with two answers, and the same vendor with
  no hit but a failing certificate and no DMARC record.
\<close>

theorem ransomware_only_moves_likelihood_witness:
  "ransomware \<lparr>ransomware = Some True, ssl = None, dmarc = None\<rparr> = Some True \<and>
   snd (calc_impact_likelihood [(1, Some 4), (2, Some 5)] []
          (Some \<lparr>ransomware = Some True, ssl = None, dmarc = None\<rparr>)) = 5 \<and>
   fst (calc_impact_likelihood [(1, Some 4), (2, Some 5)] []
          (Some \<lparr>ransomware = Some True, ssl = None, dmarc = None\<rparr>))
     = fst (calc_impact_likelihood [(1, Some 4), (2, Some 5)] [] None) \<and>
   ransomware \<lparr>ransomware = Some False, ssl = Some ''F'', dmarc = Some False\<rparr> \<noteq> Some True \<and>
   calc_impact_likelihood [(1, Some 4), (2, Some 5)] []
       (Some \<lparr>ransomware = Some False, ssl = Some ''F'', dmarc = Some False\<rparr>)
     = calc_impact_likelihood [(1, Some 4), (2, Some 5)] [] None"
  using ransomware_only_moves_likelihood
    [of "\<lparr>ransomware = Some True, ssl = None, dmarc = None\<rparr>"
        "[(1, Some 4), (2, Some 5)]" "[]" None None]
    ransomware_only_moves_likelihood
    [of "\<lparr>ransomware = Some False, ssl = Some ''F'', dmarc = Some False\<rparr>"
        "[(1, Some 4), (2, Some 5)]" "[]" None None]
  by simp

text \<open>
  Claim C10. Answers that are not empty but all null give what empty answers give: impact
  3, and likelihood 3 unless \<^verbatim>\<open>ransomware\<close> is \<^verbatim>\<open>True\<close>, which makes it 5.
\<close>

theorem all_null_answers_default:
  "answers \<noteq> [] \<and> (\<forall>(k, v) \<in> set answers. v = None) \<longrightarrow>
     calc_impact_likelihood answers questions osint_results
       = calc_impact_likelihood [] questions osint_results \<and>
     calc_impact_likelihood answers questions osint_results
       = (3, case osint_results of
               None \<Rightarrow> 3
             | Some r \<Rightarrow> if ransomware r = Some True then 5 else 3)"
proof -
  have "List.map_filter snd answers = []" if "\<forall>(k, v) \<in> set answers. v = None"
    using that by (induction answers) auto
  then show ?thesis
    by (auto simp: calc_impact_likelihood_def Let_def split: option.splits)
qed

text \<open>Witness for C10: two null answers, with a ransomware hit.\<close>

theorem all_null_answers_default_witness:
  "[(1 :: int, None :: int option), (2, None)] \<noteq> [] \<and>
   map snd [(1 :: int, None :: int option), (2, None)] = [None, None] \<and>
   calc_impact_likelihood [(1, None), (2, None)] [\<lparr>q_id = 1, weight = None\<rparr>]
       (Some \<lparr>ransomware = Some True, ssl = None, dmarc = None\<rparr>)
     = calc_impact_likelihood [] [\<lparr>q_id = 1, weight = None\<rparr>]
         (Some \<lparr>ransomware = Some True, ssl = None, dmarc = None\<rparr>) \<and>
   calc_impact_likelihood [(1, None), (2, None)] [\<lparr>q_id = 1, weight = None\<rparr>]
       (Some \<lparr>ransomware = Some True, ssl = None, dmarc = None\<rparr>) = (3, 5)"
proof -
  have h: "[(1 :: int, None :: int option), (2, None)] \<noteq> [] \<and>
           (\<forall>(k, v) \<in> set [(1 :: int, None :: int option), (2, None)]. v = None)"
    by simp
  have ne: "[(1 :: int, None :: int option), (2, None)] \<noteq> []"
    by simp
  have nulls: "map snd [(1 :: int, None :: int option), (2, None)] = [None, None]"
    by simp
  have override: "(case Some \<lparr>ransomware = Some True, ssl = None, dmarc = None\<rparr> of
                     None \<Rightarrow> 3
                   | Some r \<Rightarrow> if ransomware r = Some True then 5 else 3) = (5 :: real)"
    by simp
  have "calc_impact_likelihood [(1, None), (2, None)] [\<lparr>q_id = 1, weight = None\<rparr>]
            (Some \<lparr>ransomware = Some True, ssl = None, dmarc = None\<rparr>)
          = calc_impact_likelihood [] [\<lparr>q_id = 1, weight = None\<rparr>]
              (Some \<lparr>ransomware = Some True, ssl = None, dmarc = None\<rparr>) \<and>
        calc_impact_likelihood [(1, None), (2, None)] [\<lparr>q_id = 1, weight = None\<rparr>]
            (Some \<lparr>ransomware = Some True, ssl = None, dmarc = None\<rparr>)
          = (3, 5)"
    using all_null_answers_default
      [of "[(1, None), (2, None)]" "[\<lparr>q_id = 1, weight = None\<rparr>]"
          "Some \<lparr>ransomware = Some True, ssl = None, dmarc = None\<rparr>"] h
    unfolding override by blast
  with ne nulls show ?thesis by blast
qed

text \<open>
  Claim C6, as amended. Without the ransomware override, answers with no value that is
  not null (the empty answers among them) give the defaults (3, 3); any other answers
  give, for impact and likelihood alike, the clamp to [1, 5] of 6 - m / 1.2, where m is
  the unweighted mean of the values that are not null, whichever questions they answer.
\<close>

theorem impact_likelihood_formula:
  assumes "case osint_results of None \<Rightarrow> True | Some r \<Rightarrow> ransomware r \<noteq> Some True"
  shows "(List.map_filter snd answers = [] \<longrightarrow>
            calc_impact_likelihood answers questions osint_results = (3, 3)) \<and>
         (List.map_filter snd answers \<noteq> [] \<longrightarrow>
            (\<exists>m. spec_mean (List.map_filter snd answers) = Some m \<and>
                 calc_impact_likelihood answers questions osint_results
                   = (clamp (6 - m / (12 / 10)) 1 5, clamp (6 - m / (12 / 10)) 1 5)))"
proof -
  have "answers \<noteq> []" if "List.map_filter snd answers \<noteq> []"
    using that by auto
  then show ?thesis
    using assms
    by (auto simp: calc_impact_likelihood_def Let_def spec_mean_def clamp_def
        split: option.splits)
qed

text \<open>
  Witness for C6: answers 3 and null, whose mean over the one value is 3, so that both
  outputs are 6 - 3 / 1.2 = 7/2; no question list is needed for them.
\<close>

theorem impact_likelihood_formula_witness:
  "List.map_filter snd [(1 :: int, Some 3), (2, None)] = [3 :: int] \<and>
   spec_mean [3] = Some 3 \<and>
   calc_impact_likelihood [(1, Some 3), (2, None)] []
       (Some \<lparr>ransomware = Some False, ssl = Some ''F'', dmarc = None\<rparr>) = (7 / 2, 7 / 2)"
proof -
  have h: "case Some \<lparr>ransomware = Some False, ssl = Some ''F'', dmarc = None\<rparr> of
             None \<Rightarrow> True | Some r \<Rightarrow> ransomware r \<noteq> Some True"
    by simp
  show ?thesis
    using impact_likelihood_formula [OF h, of "[(1, Some 3), (2, None)]" "[]"]
    by (simp add: spec_mean_def clamp_def)
qed

text \<open>
  Counterexample for C6 as stated: the answers \<^verbatim>\<open>{1: None}\<close> are not empty, they have no
  value that is not null, so the mean the claim computes does not exist, and the code
  returns the defaults.
\<close>

theorem impact_likelihood_counterexample:
  "[(1 :: int, None :: int option)] \<noteq> [] \<and>
   calc_impact_likelihood [(1, None)] [] None = (3, 3) \<and>
   spec_impact_likelihood [(1, None)] = None"
  by (simp add: calc_impact_likelihood_def spec_impact_likelihood_def spec_mean_def)

section \<open>Standard track: the weighted mean\<close>

lemma question_weight_spec: "question_weight q = spec_weight q"
  by (simp add: question_weight_def spec_weight_def split: option.splits)

lemma spec_answered_Cons:
  "spec_answered answers (q # qs) =
     (case map_of answers (q_id q) of
        Some (Some a) \<Rightarrow> (spec_weight q, a) # spec_answered answers qs
      | _ \<Rightarrow> spec_answered answers qs)"
  by (simp add: spec_answered_def split: option.splits)

lemma spec_answered_Nil: "spec_answered answers [] = []"
  by (simp add: spec_answered_def)

lemma vuln_loop_fold:
  "vuln_loop fl answers questions (tw, ws) =
     (tw + (\<Sum>(w, a)\<leftarrow>spec_answered answers questions. w),
      foldl (\<lambda>s x. fl (s + x)) ws
        (map (\<lambda>(w, a). fl (fl ((6 - of_int a) / 5) * of_int w))
           (spec_answered answers questions)))"
proof (induction questions arbitrary: tw ws)
  case Nil
  then show ?case by (simp add: spec_answered_Nil)
next
  case (Cons q qs)
  show ?case
    by (simp add: spec_answered_Cons Cons.IH Let_def question_weight_spec
        split: option.splits)
qed

lemma spec_weight_pos: "1 \<le> spec_weight q"
  by (simp add: spec_weight_def split: option.splits)

lemma spec_answered_weight_pos: "(w, a) \<in> set (spec_answered answers questions) \<Longrightarrow> 1 \<le> w"
  by (induction questions)
     (auto simp: spec_answered_Nil spec_answered_Cons spec_weight_pos split: option.splits)

lemma weight_sum_pos:
  "m \<noteq> [] \<Longrightarrow> \<forall>(w, a) \<in> set m. (1 :: int) \<le> w \<Longrightarrow> 0 < (\<Sum>(w, a)\<leftarrow>m. w)"
proof (induction m)
  case Nil
  then show ?case by simp
next
  case (Cons x xs)
  have "0 \<le> (\<Sum>(w, a)\<leftarrow>xs. w)"
    by (rule sum_list_nonneg) (use Cons.prems(2) in force)
  then show ?case using Cons.prems(2) by (cases x) simp
qed

lemma spec_answered_nonempty:
  "\<exists>q \<in> set questions. \<exists>a. map_of answers (q_id q) = Some (Some a) \<Longrightarrow>
   spec_answered answers questions \<noteq> []"
  by (induction questions) (auto simp: spec_answered_Cons split: option.splits)

lemma of_int_weight_sum:
  "real_of_int (\<Sum>(w, a)\<leftarrow>m. w) = (\<Sum>(w, a)\<leftarrow>m. of_int w)"
  by (induction m) auto

lemma foldl_exact: "foldl (\<lambda>s x. exact (s + x)) s xs = s + sum_list xs"
  by (induction xs arbitrary: s) (simp_all add: exact_def)

lemma exact_terms_sum:
  "sum_list (map (\<lambda>(w, a). exact (exact ((6 - real_of_int a) / 5) * real_of_int w)) m)
     = (\<Sum>(w, a)\<leftarrow>m. of_int w * ((6 - of_int a) / 5))"
  by (induction m) (auto simp: exact_def)

lemma percentage_exact:
  "spec_weighted_percentage exact answers questions = spec_weighted_mean answers questions * 100"
proof -
  have sum: "fl_sum exact xs = sum_list xs" for xs
    by (simp add: fl_sum_def foldl_exact)
  show ?thesis
    unfolding spec_weighted_percentage_def sum exact_terms_sum
    by (simp add: exact_def spec_weighted_mean_def of_int_weight_sum)
qed

lemma all_five_sum:
  "\<forall>(w, a) \<in> set m. a = 5 \<Longrightarrow>
   (\<Sum>(w, a)\<leftarrow>m. real_of_int w * ((6 - of_int a) / 5)) = (\<Sum>(w, a)\<leftarrow>m. of_int w) / 5"
  by (induction m) (auto simp: add_divide_distrib)

lemma term_error:
  assumes "accurate_rounding fl u"
  shows "\<bar>fl (fl n * w) - w * n\<bar> \<le> \<bar>w * n\<bar> * ((1 + u) ^ 2 - 1)"
proof -
  have "\<bar>fl n - n\<bar> \<le> \<bar>n\<bar> * ((1 + u) ^ Suc 0 - 1)"
    by (rule accurate_step [OF assms]) simp_all
  then have "\<bar>w\<bar> * \<bar>fl n - n\<bar> \<le> \<bar>w\<bar> * (\<bar>n\<bar> * ((1 + u) ^ Suc 0 - 1))"
    by (intro mult_left_mono) simp_all
  then have "\<bar>fl n * w - w * n\<bar> \<le> \<bar>w * n\<bar> * ((1 + u) ^ Suc 0 - 1)"
    by (simp add: abs_mult algebra_simps flip: abs_mult)
  then have "\<bar>fl (fl n * w) - w * n\<bar> \<le> \<bar>w * n\<bar> * ((1 + u) ^ Suc (Suc 0) - 1)"
    by (rule accurate_step [OF assms]) simp
  then show ?thesis by (simp only: numeral_2_eq_2)
qed

lemma foldl_error:
  assumes "accurate_rounding fl u"
    and "\<bar>s' - s\<bar> \<le> A * ((1 + u) ^ k - 1)" and "\<bar>s\<bar> \<le> A" and "2 \<le> k"
  shows "\<bar>foldl (\<lambda>s x. fl (s + x)) s'
            (map (\<lambda>(w, a). fl (fl ((6 - of_int a) / 5) * of_int w)) m)
          - (s + (\<Sum>(w, a)\<leftarrow>m. of_int w * ((6 - of_int a) / 5)))\<bar>
         \<le> (A + (\<Sum>(w, a)\<leftarrow>m. \<bar>of_int w * ((6 - of_int a) / 5)\<bar>))
             * ((1 + u) ^ (k + length m) - 1)"
  using assms(2-4)
proof (induction m arbitrary: s' s A k)
  case Nil
  then show ?case by simp
next
  case (Cons x m)
  obtain w a where x: "x = (w, a)" by (cases x)
  define t where "t = real_of_int w * ((6 - of_int a) / 5)"
  define t' where "t' = fl (fl ((6 - of_int a) / 5) * of_int w)"
  have u: "0 \<le> u" using assms(1) by (simp add: accurate_rounding_def)
  have A: "0 \<le> A" using Cons.prems(2) by linarith
  have te: "\<bar>t' - t\<bar> \<le> \<bar>t\<bar> * ((1 + u) ^ 2 - 1)"
    unfolding t'_def t_def by (rule term_error [OF assms(1)])
  have "\<bar>t\<bar> * ((1 + u) ^ 2 - 1) \<le> \<bar>t\<bar> * ((1 + u) ^ k - 1)"
    by (rule power_factor_mono [OF u Cons.prems(3)]) simp
  with te have te': "\<bar>t' - t\<bar> \<le> \<bar>t\<bar> * ((1 + u) ^ k - 1)" by linarith
  have "\<bar>(s' + t') - (s + t)\<bar> \<le> \<bar>s' - s\<bar> + \<bar>t' - t\<bar>" by linarith
  also have "\<dots> \<le> A * ((1 + u) ^ k - 1) + \<bar>t\<bar> * ((1 + u) ^ k - 1)"
    using Cons.prems(1) te' by linarith
  also have "\<dots> = (A + \<bar>t\<bar>) * ((1 + u) ^ k - 1)" by (simp add: algebra_simps)
  finally have d: "\<bar>(s' + t') - (s + t)\<bar> \<le> (A + \<bar>t\<bar>) * ((1 + u) ^ k - 1)" .
  have b: "\<bar>s + t\<bar> \<le> A + \<bar>t\<bar>" using Cons.prems(2) by linarith
  have step: "\<bar>fl (s' + t') - (s + t)\<bar> \<le> (A + \<bar>t\<bar>) * ((1 + u) ^ Suc k - 1)"
    by (rule accurate_step [OF assms(1) d b])
  have k: "2 \<le> Suc k" using Cons.prems(3) by simp
  show ?case
    using Cons.IH [OF step b k]
    by (simp add: x t_def t'_def add.assoc)
qed

lemma sum_list_abs_le:
  "\<bar>\<Sum>(w, a)\<leftarrow>m. real_of_int w * ((6 - of_int a) / 5)\<bar>
     \<le> (\<Sum>(w, a)\<leftarrow>m. \<bar>of_int w * ((6 - of_int a) / 5)\<bar>)"
proof (induction m)
  case Nil
  then show ?case by simp
next
  case (Cons x m)
  obtain w a where x: "x = (w, a)" by (cases x)
  define t where "t = real_of_int w * ((6 - of_int a) / 5)"
  define S where "S = (\<Sum>(w, a)\<leftarrow>m. real_of_int w * ((6 - of_int a) / 5))"
  have "\<bar>t + S\<bar> \<le> \<bar>t\<bar> + \<bar>S\<bar>" by (rule abs_triangle_ineq)
  also have "\<dots> \<le> \<bar>t\<bar> + (\<Sum>(w, a)\<leftarrow>m. \<bar>of_int w * ((6 - of_int a) / 5)\<bar>)"
    using Cons.IH unfolding S_def by (rule add_left_mono)
  finally show ?case unfolding x t_def S_def by simp
qed

lemma percentage_error:
  assumes "accurate_rounding fl u"
    and "0 < (\<Sum>(w, a)\<leftarrow>spec_answered answers questions. w)"
  shows "\<bar>spec_weighted_percentage fl answers questions
           - spec_weighted_mean answers questions * 100\<bar>
         \<le> spec_weighted_abs_mean answers questions * 100
             * ((1 + u) ^ (length (spec_answered answers questions) + 4) - 1)"
proof -
  define m where "m = spec_answered answers questions"
  define n where "n = length m"
  define W where "W = real_of_int (\<Sum>(w, a)\<leftarrow>m. w)"
  define S where "S = (\<Sum>(w, a)\<leftarrow>m. real_of_int w * ((6 - of_int a) / 5))"
  define A where "A = (\<Sum>(w, a)\<leftarrow>m. \<bar>real_of_int w * ((6 - of_int a) / 5)\<bar>)"
  define S' where "S' = fl_sum fl (map (\<lambda>(w, a). fl (fl ((6 - of_int a) / 5) * of_int w)) m)"
  have W: "0 < W" using assms(2) unfolding W_def m_def by simp
  have SA: "\<bar>S\<bar> \<le> A" unfolding S_def A_def by (rule sum_list_abs_le)
  have "\<bar>S' - (0 + S)\<bar> \<le> (0 + A) * ((1 + u) ^ (2 + n) - 1)"
    unfolding S'_def S_def A_def fl_sum_def n_def
    by (rule foldl_error [OF assms(1)]) simp_all
  then have e1: "\<bar>S' - S\<bar> \<le> A * ((1 + u) ^ (n + 2) - 1)"
    by (simp add: add.commute)
  have "\<bar>S' / W - S / W\<bar> = \<bar>S' - S\<bar> / W"
    using W by (simp add: abs_divide flip: diff_divide_distrib)
  also have "\<dots> \<le> A * ((1 + u) ^ (n + 2) - 1) / W"
    using e1 W by (simp add: divide_right_mono)
  finally have d2: "\<bar>S' / W - S / W\<bar> \<le> A / W * ((1 + u) ^ (n + 2) - 1)" by simp
  have b2: "\<bar>S / W\<bar> \<le> A / W"
    using SA W by (simp add: abs_divide divide_right_mono)
  have e2: "\<bar>fl (S' / W) - S / W\<bar> \<le> A / W * ((1 + u) ^ Suc (n + 2) - 1)"
    by (rule accurate_step [OF assms(1) d2 b2])
  have "fl (S' / W) * 100 - S / W * 100 = (fl (S' / W) - S / W) * 100"
    by (rule left_diff_distrib [symmetric])
  then have "\<bar>fl (S' / W) * 100 - S / W * 100\<bar> = \<bar>fl (S' / W) - S / W\<bar> * 100"
    by (simp only: abs_mult abs_numeral)
  also have "\<dots> \<le> A / W * ((1 + u) ^ Suc (n + 2) - 1) * 100"
    using e2 by (rule mult_right_mono) simp
  also have "\<dots> = A / W * 100 * ((1 + u) ^ Suc (n + 2) - 1)"
    by (simp only: mult.assoc mult.commute [of _ "100 :: real"] mult.left_commute [of _ "100 :: real"])
  finally have d3: "\<bar>fl (S' / W) * 100 - S / W * 100\<bar>
                      \<le> A / W * 100 * ((1 + u) ^ Suc (n + 2) - 1)" .
  have "\<bar>S / W\<bar> * 100 \<le> A / W * 100"
    using b2 by (rule mult_right_mono) simp
  then have b3: "\<bar>S / W * 100\<bar> \<le> A / W * 100"
    by (simp only: abs_mult abs_numeral)
  have e3: "\<bar>fl (fl (S' / W) * 100) - S / W * 100\<bar>
              \<le> A / W * 100 * ((1 + u) ^ Suc (Suc (n + 2)) - 1)"
    by (rule accurate_step [OF assms(1) d3 b3])
  have p: "spec_weighted_percentage fl answers questions = fl (fl (S' / W) * 100)"
    by (simp add: spec_weighted_percentage_def S'_def W_def m_def)
  have q: "spec_weighted_mean answers questions = S / W"
    by (simp add: spec_weighted_mean_def S_def W_def m_def of_int_weight_sum)
  have r: "spec_weighted_abs_mean answers questions = A / W"
    by (simp add: spec_weighted_abs_mean_def A_def W_def m_def of_int_weight_sum)
  have k: "Suc (Suc (n + 2)) = length (spec_answered answers questions) + 4"
    by (simp add: n_def m_def)
  show ?thesis
    using e3 unfolding p q r k .
qed

lemma all_five_abs_sum:
  "\<forall>(w, a) \<in> set m. a = 5 \<and> (1 :: int) \<le> w \<Longrightarrow>
   (\<Sum>(w, a)\<leftarrow>m. \<bar>real_of_int w * ((6 - of_int a) / 5)\<bar>) = (\<Sum>(w, a)\<leftarrow>m. of_int w) / 5"
  by (induction m) (auto simp: add_divide_distrib)

lemma nearest_of_close:
  fixes r T Ta W :: int and P :: real
  assumes "0 < W" and "\<bar>real_of_int r - P\<bar> \<le> 1 / 2"
    and "\<bar>P - 20 * of_int T / of_int W\<bar> \<le> 20 * of_int Ta / of_int W / 2 ^ 32"
    and "20 * Ta < 2 ^ 31"
  shows "\<bar>real_of_int r - 20 * of_int T / of_int W\<bar> \<le> 1 / 2"
proof -
  define M where "M = 20 * real_of_int T / of_int W"
  define D where "D = 2 * W * r - 40 * T"
  have W: "0 < real_of_int W" using assms(1) by simp
  have D: "real_of_int D = (of_int r - M) * (2 * of_int W)"
    unfolding D_def M_def using W by (simp add: field_simps)
  have "\<bar>of_int r - M\<bar> \<le> 1 / 2 + 20 * of_int Ta / of_int W / 2 ^ 32"
    using assms(2,3) unfolding M_def by linarith
  then have "\<bar>of_int r - M\<bar> * (2 * of_int W)
               \<le> (1 / 2 + 20 * of_int Ta / of_int W / 2 ^ 32) * (2 * of_int W)"
    using W by (intro mult_right_mono) simp_all
  also have "\<dots> = of_int W + of_int (20 * Ta) / 2 ^ 31"
    using W by (simp add: field_simps)
  also have "\<dots> < of_int W + 1"
  proof -
    have "real_of_int (20 * Ta) < 2 ^ 31"
      using assms(4) by (metis of_int_less_iff of_int_numeral of_int_power)
    then show ?thesis by simp
  qed
  finally have "\<bar>of_int r - M\<bar> * (2 * of_int W) < of_int W + 1" .
  moreover have "\<bar>real_of_int D\<bar> = \<bar>of_int r - M\<bar> * (2 * of_int W)"
    unfolding D using W by (simp add: abs_mult)
  ultimately have "\<bar>real_of_int D\<bar> < real_of_int (W + 1)" by simp
  then have "\<bar>D\<bar> < W + 1" by linarith
  then have "\<bar>D\<bar> \<le> W" by simp
  then have "\<bar>real_of_int D\<bar> \<le> real_of_int W" by linarith
  then have "\<bar>of_int r - M\<bar> * (2 * of_int W) \<le> 1 / 2 * (2 * of_int W)"
    unfolding D using W by (simp add: abs_mult)
  then have "\<bar>of_int r - M\<bar> \<le> 1 / 2"
    using W by (simp only: mult_le_cancel_right)
  then show ?thesis unfolding M_def .
qed

lemma int_terms_sum:
  "(\<Sum>(w, a)\<leftarrow>m. real_of_int w * ((6 - of_int a) / 5))
     = real_of_int (\<Sum>(w, a)\<leftarrow>m. w * (6 - a)) / 5"
  by (induction m) (auto simp: add_divide_distrib)

lemma int_abs_terms_sum:
  "(\<Sum>(w, a)\<leftarrow>m. \<bar>real_of_int w * ((6 - of_int a) / 5)\<bar>)
     = real_of_int (\<Sum>(w, a)\<leftarrow>m. \<bar>w * (6 - a)\<bar>) / 5"
  by (induction m) (auto simp: add_divide_distrib abs_mult)

lemma mean_as_integers:
  "spec_weighted_mean answers questions * 100
     = 20 * real_of_int (\<Sum>(w, a)\<leftarrow>spec_answered answers questions. w * (6 - a))
       / real_of_int (\<Sum>(w, a)\<leftarrow>spec_answered answers questions. w)"
  unfolding spec_weighted_mean_def int_terms_sum of_int_weight_sum [symmetric] by simp

lemma abs_mean_as_integers:
  "spec_weighted_abs_mean answers questions * 100
     = 20 * real_of_int (\<Sum>(w, a)\<leftarrow>spec_answered answers questions. \<bar>w * (6 - a)\<bar>)
       / real_of_int (\<Sum>(w, a)\<leftarrow>spec_answered answers questions. w)"
  unfolding spec_weighted_abs_mean_def int_abs_terms_sum of_int_weight_sum [symmetric] by simp

lemma abs_mean_nonneg: "0 \<le> spec_weighted_abs_mean answers questions"
proof -
  have a: "0 \<le> (\<Sum>(w, a)\<leftarrow>m. \<bar>real_of_int w * ((6 - of_int a) / 5)\<bar>)" for m
    by (rule sum_list_nonneg) auto
  have "0 \<le> (\<Sum>(w, a)\<leftarrow>spec_answered answers questions. real_of_int w)"
    by (rule sum_list_nonneg) (use spec_answered_weight_pos in force)
  with a show ?thesis
    unfolding spec_weighted_abs_mean_def by (rule divide_nonneg_nonneg)
qed

text \<open>
  Claim C4. For answers that are not empty, a list of questions of which at least one has
  an answer that is not null, and OSINT results to which no floor applies,
  \<^const>\<open>calc_vulnerability\<close> returns \<^verbatim>\<open>round\<close> of the percentage that doubles give for
  the weighted mean of the contributions (6 - a) / 5 of the answered questions of the
  list, with weights 3 for \<^verbatim>\<open>'Critical'\<close>, 2 for \<^verbatim>\<open>'High'\<close> and 1 otherwise, whatever
  the rounding of the operations; the result is within 1/2 of that percentage. Without
  rounding the percentage is 100 times the weighted mean, the result is within 1/2 of it,
  and it is 20 when every answered value is 5. With a rounding of relative error at most
  \<open>u\<close> and \<open>n\<close> answered questions, the percentage is within
  100 * ((1 + u)^(n + 4) - 1) times the weighted mean of the absolute contributions of
  100 times the weighted mean, the result is within 1/2 more than that of it, and the
  result is 20 when every answered value is 5 and (1 + u)^(n + 4) is below 41/40. In
  binary64 arithmetic the result is 20 when every answered value is 5 and
  n + 4 \<le> 2^46, and it is within 1/2 of 100 times the weighted mean, a nearest integer
  to it, when n + 4 \<le> 2^20 and 20 times the sum of the products \<bar>w * (6 - a)\<bar> of the
  weights and the answers is below 2^31.
\<close>

theorem weighted_mean_vulnerability:
  assumes "answers \<noteq> []"
    and "\<exists>q \<in> set questions. \<exists>a. map_of answers (q_id q) = Some (Some a)"
    and "case osint_results of
           None \<Rightarrow> True
         | Some r \<Rightarrow> ssl r \<noteq> Some ''F'' \<and> ssl r \<noteq> Some ''Expired'' \<and> dmarc r \<noteq> Some False"
  shows "calc_vulnerability fl answers questions osint_results
           = py_round (spec_weighted_percentage fl answers questions) \<and>
         \<bar>of_int (calc_vulnerability fl answers questions osint_results)
            - spec_weighted_percentage fl answers questions\<bar> \<le> 1 / 2 \<and>
         spec_weighted_percentage exact answers questions
           = spec_weighted_mean answers questions * 100 \<and>
         \<bar>of_int (calc_vulnerability exact answers questions osint_results)
            - spec_weighted_mean answers questions * 100\<bar> \<le> 1 / 2 \<and>
         ((\<forall>(w, a) \<in> set (spec_answered answers questions). a = 5) \<longrightarrow>
            calc_vulnerability exact answers questions osint_results = 20) \<and>
         (\<forall>u. accurate_rounding fl u \<longrightarrow>
            \<bar>spec_weighted_percentage fl answers questions
               - spec_weighted_mean answers questions * 100\<bar>
            \<le> spec_weighted_abs_mean answers questions * 100
                * ((1 + u) ^ (length (spec_answered answers questions) + 4) - 1)) \<and>
         (\<forall>u. accurate_rounding fl u \<longrightarrow>
            \<bar>of_int (calc_vulnerability fl answers questions osint_results)
               - spec_weighted_mean answers questions * 100\<bar>
            \<le> 1 / 2 + spec_weighted_abs_mean answers questions * 100
                * ((1 + u) ^ (length (spec_answered answers questions) + 4) - 1)) \<and>
         (\<forall>u. accurate_rounding fl u \<and>
              (1 + u) ^ (length (spec_answered answers questions) + 4) < 41 / 40 \<and>
              (\<forall>(w, a) \<in> set (spec_answered answers questions). a = 5) \<longrightarrow>
            calc_vulnerability fl answers questions osint_results = 20) \<and>
         (length (spec_answered answers questions) + 4 \<le> 2 ^ 46 \<and>
          (\<forall>(w, a) \<in> set (spec_answered answers questions). a = 5) \<longrightarrow>
            calc_vulnerability fl64 answers questions osint_results = 20) \<and>
         (length (spec_answered answers questions) + 4 \<le> 2 ^ 20 \<and>
          20 * (\<Sum>(w, a)\<leftarrow>spec_answered answers questions. \<bar>w * (6 - a)\<bar>) < 2 ^ 31 \<longrightarrow>
            \<bar>of_int (calc_vulnerability fl64 answers questions osint_results)
               - spec_weighted_mean answers questions * 100\<bar> \<le> 1 / 2)"
proof -
  define m where "m = spec_answered answers questions"
  define M where "M = spec_weighted_mean answers questions * 100"
  define B where "B = spec_weighted_abs_mean answers questions * 100"
  have ne: "m \<noteq> []"
    unfolding m_def using assms(2) by (rule spec_answered_nonempty)
  have wpos: "\<forall>(w, a) \<in> set m. 1 \<le> w"
    unfolding m_def by (auto dest: spec_answered_weight_pos)
  have pos: "0 < (\<Sum>(w, a)\<leftarrow>m. w)"
    using ne wpos by (rule weight_sum_pos)
  have rpos: "0 < (\<Sum>(w, a)\<leftarrow>m. real_of_int w)"
    using pos unfolding of_int_weight_sum [symmetric] by simp
  have B: "0 \<le> B"
    unfolding B_def using abs_mean_nonneg [of answers questions] by simp
  have fl: "osint_floor osint_results v = v" for v :: real
    using assms(3) by (auto simp: osint_floor_def Let_def split: option.splits)
  have eq: "calc_vulnerability f answers questions osint_results
              = py_round (spec_weighted_percentage f answers questions)" for f
    using assms(1) pos
    by (simp add: calc_vulnerability_def vuln_loop_fold fl spec_weighted_percentage_def
        fl_sum_def flip: m_def)
  have five: "M = 20" if "\<forall>(w, a) \<in> set m. a = 5"
  proof -
    have "spec_weighted_mean answers questions
            = (\<Sum>(w, a)\<leftarrow>m. real_of_int w) / 5 / (\<Sum>(w, a)\<leftarrow>m. real_of_int w)"
      unfolding spec_weighted_mean_def m_def [symmetric] all_five_sum [OF that] ..
    with rpos show ?thesis unfolding M_def by simp
  qed
  have five_abs: "B = 20" if "\<forall>(w, a) \<in> set m. a = 5"
  proof -
    have "\<forall>(w, a) \<in> set m. a = 5 \<and> 1 \<le> w"
      using that wpos by auto
    then have "spec_weighted_abs_mean answers questions
            = (\<Sum>(w, a)\<leftarrow>m. real_of_int w) / 5 / (\<Sum>(w, a)\<leftarrow>m. real_of_int w)"
      unfolding spec_weighted_abs_mean_def m_def [symmetric] by (simp only: all_five_abs_sum)
    with rpos show ?thesis unfolding B_def by simp
  qed
  have pe: "spec_weighted_percentage exact answers questions = M"
    unfolding M_def by (rule percentage_exact)
  have twenty: "py_round (spec_weighted_percentage exact answers questions) = 20"
    if "\<forall>(w, a) \<in> set m. a = 5"
    unfolding pe five [OF that] by (rule py_round_numeral)
  have err: "\<bar>spec_weighted_percentage f answers questions - M\<bar>
               \<le> B * ((1 + u) ^ (length m + 4) - 1)"
    if "accurate_rounding f u" for f u
    unfolding M_def B_def m_def
    using that pos [unfolded m_def] by (rule percentage_error)
  have near: "\<bar>of_int (py_round (spec_weighted_percentage f answers questions)) - M\<bar>
                \<le> 1 / 2 + B * ((1 + u) ^ (length m + 4) - 1)"
    if "accurate_rounding f u" for f u
    using err [OF that] py_round_near [of "spec_weighted_percentage f answers questions"]
    by linarith
  have twenty_fl: "py_round (spec_weighted_percentage f answers questions) = 20"
    if "accurate_rounding f u" and "(1 + u) ^ (length m + 4) < 41 / 40"
      and "\<forall>(w, a) \<in> set m. a = 5" for f u
  proof -
    have "\<bar>spec_weighted_percentage f answers questions - 20\<bar>
            \<le> 20 * ((1 + u) ^ (length m + 4) - 1)"
      using err [OF that(1)] unfolding five [OF that(3)] five_abs [OF that(3)] .
    with that(2) have "\<bar>spec_weighted_percentage f answers questions - of_int 20\<bar> < 1 / 2"
      by simp
    then show ?thesis by (rule py_round_unique)
  qed
  have twenty_64: "py_round (spec_weighted_percentage fl64 answers questions) = 20"
    if "length m + 4 \<le> 2 ^ 46" and "\<forall>(w, a) \<in> set m. a = 5"
  proof -
    have "(1 + 1 / 2 ^ 53 :: real) ^ (length m + 4) \<le> 1 + 1 / 2 ^ (52 - 46)"
      using that(1) by (rule fl64_power_bound) simp
    then have "(1 + 1 / 2 ^ 53 :: real) ^ (length m + 4) < 41 / 40" by simp
    with fl64_accurate show ?thesis using that(2) by (rule twenty_fl)
  qed
  have nearest_64: "\<bar>of_int (py_round (spec_weighted_percentage fl64 answers questions)) - M\<bar>
                      \<le> 1 / 2"
    if "length m + 4 \<le> 2 ^ 20" and "20 * (\<Sum>(w, a)\<leftarrow>m. \<bar>w * (6 - a)\<bar>) < 2 ^ 31"
  proof -
    have "(1 + 1 / 2 ^ 53 :: real) ^ (length m + 4) \<le> 1 + 1 / 2 ^ (52 - 20)"
      using that(1) by (rule fl64_power_bound) simp
    then have "(1 + 1 / 2 ^ 53 :: real) ^ (length m + 4) - 1 \<le> 1 / 2 ^ 32" by simp
    then have "B * ((1 + 1 / 2 ^ 53) ^ (length m + 4) - 1) \<le> B * (1 / 2 ^ 32)"
      using B by (rule mult_left_mono)
    with err [OF fl64_accurate]
    have e: "\<bar>spec_weighted_percentage fl64 answers questions - M\<bar> \<le> B / 2 ^ 32"
      by simp
    have M': "M = 20 * real_of_int (\<Sum>(w, a)\<leftarrow>m. w * (6 - a)) / real_of_int (\<Sum>(w, a)\<leftarrow>m. w)"
      unfolding M_def m_def by (rule mean_as_integers)
    have B': "B = 20 * real_of_int (\<Sum>(w, a)\<leftarrow>m. \<bar>w * (6 - a)\<bar>) / real_of_int (\<Sum>(w, a)\<leftarrow>m. w)"
      unfolding B_def m_def by (rule abs_mean_as_integers)
    show ?thesis
      unfolding M'
      by (rule nearest_of_close [OF pos py_round_near e [unfolded M' B'] that(2)])
  qed
  have c2: "\<bar>of_int (py_round (spec_weighted_percentage fl answers questions))
              - spec_weighted_percentage fl answers questions\<bar> \<le> 1 / 2"
    by (rule py_round_near)
  have c4: "\<bar>of_int (py_round (spec_weighted_percentage exact answers questions)) - M\<bar> \<le> 1 / 2"
    unfolding pe [symmetric] by (rule py_round_near)
  show ?thesis
    unfolding eq m_def [symmetric] M_def [symmetric] B_def [symmetric]
    using c2 c4 pe twenty err near twenty_fl twenty_64 nearest_64
    by blast
qed

text \<open>
  Witness for C4. Answers 1 and 5 to a critical and a low question: the weights 3 and 1
  give 80, where equal weights would give 60. Two answers of 5 and an unanswered
  question: 20, in exact and in binary64 arithmetic. Answers 1, 2 and 5 to two critical questions and a high one: the weighted
  mean is 72.5 exactly, binary64 arithmetic gives a percentage just above it, and the
  result is 73, a nearest integer. Three answers of 5, and one answer of 5 to a
  question with no weight under a certificate of grade B: 20 in binary64 arithmetic, by
  the bound on the error.
\<close>

theorem weighted_mean_vulnerability_witness:
  "spec_weighted_mean [(1, Some 1), (2, Some 5)] [\<lparr>q_id = 1, weight = Some ''Critical''\<rparr>, \<lparr>q_id = 2, weight = Some ''Low''\<rparr>] * 100 = 80 \<and>
   calc_vulnerability exact [(1, Some 1), (2, Some 5)] [\<lparr>q_id = 1, weight = Some ''Critical''\<rparr>, \<lparr>q_id = 2, weight = Some ''Low''\<rparr>]
     (Some \<lparr>ransomware = Some True, ssl = Some ''A'', dmarc = Some True\<rparr>) = 80 \<and>
   map snd (spec_answered [(1, Some 5), (2, Some 5), (9, None)]
     [\<lparr>q_id = 1, weight = Some ''Critical''\<rparr>, \<lparr>q_id = 2, weight = Some ''High''\<rparr>,
      \<lparr>q_id = 3, weight = Some ''Low''\<rparr>]) = [5, 5] \<and>
   calc_vulnerability exact [(1, Some 5), (2, Some 5), (9, None)]
     [\<lparr>q_id = 1, weight = Some ''Critical''\<rparr>, \<lparr>q_id = 2, weight = Some ''High''\<rparr>,
      \<lparr>q_id = 3, weight = Some ''Low''\<rparr>] None = 20 \<and>
   calc_vulnerability fl64 [(1, Some 5), (2, Some 5), (9, None)]
     [\<lparr>q_id = 1, weight = Some ''Critical''\<rparr>, \<lparr>q_id = 2, weight = Some ''High''\<rparr>,
      \<lparr>q_id = 3, weight = Some ''Low''\<rparr>] None = 20 \<and>
   spec_weighted_mean [(1, Some 1), (2, Some 2), (3, Some 5)]
     [\<lparr>q_id = 1, weight = Some ''Critical''\<rparr>, \<lparr>q_id = 2, weight = Some ''Critical''\<rparr>,
      \<lparr>q_id = 3, weight = Some ''High''\<rparr>] * 100 = 145 / 2 \<and>
   calc_vulnerability fl64 [(1, Some 1), (2, Some 2), (3, Some 5)]
     [\<lparr>q_id = 1, weight = Some ''Critical''\<rparr>, \<lparr>q_id = 2, weight = Some ''Critical''\<rparr>,
      \<lparr>q_id = 3, weight = Some ''High''\<rparr>] None = 73 \<and>
   calc_vulnerability fl64 [(1, Some 5), (2, Some 5), (3, Some 5)]
     [\<lparr>q_id = 1, weight = Some ''Critical''\<rparr>, \<lparr>q_id = 2, weight = Some ''High''\<rparr>,
      \<lparr>q_id = 3, weight = Some ''Low''\<rparr>] None = 20 \<and>
   calc_vulnerability fl64 [(7, Some 5)] [\<lparr>q_id = 7, weight = None\<rparr>]
     (Some \<lparr>ransomware = None, ssl = Some ''B'', dmarc = None\<rparr>) = 20 \<and>
   \<bar>real_of_int (calc_vulnerability fl64 [(1, Some 1), (2, Some 2), (3, Some 5)]
     [\<lparr>q_id = 1, weight = Some ''Critical''\<rparr>, \<lparr>q_id = 2, weight = Some ''Critical''\<rparr>,
      \<lparr>q_id = 3, weight = Some ''High''\<rparr>] None) - 145 / 2\<bar> \<le> 1 / 2"
proof -
  have o1: "case (Some \<lparr>ransomware = Some True, ssl = Some ''A'', dmarc = Some True\<rparr>) of
              None \<Rightarrow> True
            | Some r \<Rightarrow> ssl r \<noteq> Some ''F'' \<and> ssl r \<noteq> Some ''Expired'' \<and> dmarc r \<noteq> Some False"
    by simp
  have o2: "case (None :: osint option) of
              None \<Rightarrow> True
            | Some r \<Rightarrow> ssl r \<noteq> Some ''F'' \<and> ssl r \<noteq> Some ''Expired'' \<and> dmarc r \<noteq> Some False"
    by simp
  have a1: "[(1, Some 1), (2, Some 5)] \<noteq> ([] :: answers)"
    by simp
  have a2: "\<exists>q \<in> set [\<lparr>q_id = 1, weight = Some ''Critical''\<rparr>, \<lparr>q_id = 2, weight = Some ''Low''\<rparr>].
              \<exists>a. map_of [(1, Some 1), (2, Some 5)] (q_id q) = Some (Some a)"
    by simp
  have a3: "spec_weighted_mean [(1, Some 1), (2, Some 5)] [\<lparr>q_id = 1, weight = Some ''Critical''\<rparr>, \<lparr>q_id = 2, weight = Some ''Low''\<rparr>] * 100 = 80"
    by (simp add: spec_weighted_mean_def spec_answered_def spec_weight_def)
  have "calc_vulnerability exact [(1, Some 1), (2, Some 5)] [\<lparr>q_id = 1, weight = Some ''Critical''\<rparr>, \<lparr>q_id = 2, weight = Some ''Low''\<rparr>]
          (Some \<lparr>ransomware = Some True, ssl = Some ''A'', dmarc = Some True\<rparr>)
        = py_round (spec_weighted_mean [(1, Some 1), (2, Some 5)] [\<lparr>q_id = 1, weight = Some ''Critical''\<rparr>, \<lparr>q_id = 2, weight = Some ''Low''\<rparr>] * 100)"
    using weighted_mean_vulnerability [OF a1 a2 o1, where fl = exact] by metis
  then have a4: "calc_vulnerability exact [(1, Some 1), (2, Some 5)] [\<lparr>q_id = 1, weight = Some ''Critical''\<rparr>, \<lparr>q_id = 2, weight = Some ''Low''\<rparr>]
          (Some \<lparr>ransomware = Some True, ssl = Some ''A'', dmarc = Some True\<rparr>) = 80"
    unfolding a3 by (simp add: py_round_numeral)
  have b1: "[(1, Some 5), (2, Some 5), (9, None)] \<noteq> ([] :: answers)"
    by simp
  have b2: "\<exists>q \<in> set [\<lparr>q_id = 1, weight = Some ''Critical''\<rparr>, \<lparr>q_id = 2, weight = Some ''High''\<rparr>,
      \<lparr>q_id = 3, weight = Some ''Low''\<rparr>].
              \<exists>a. map_of [(1, Some 5), (2, Some 5), (9, None)] (q_id q) = Some (Some a)"
    by simp
  have b3: "\<forall>(w, a) \<in> set (spec_answered [(1, Some 5), (2, Some 5), (9, None)]
      [\<lparr>q_id = 1, weight = Some ''Critical''\<rparr>, \<lparr>q_id = 2, weight = Some ''High''\<rparr>,
      \<lparr>q_id = 3, weight = Some ''Low''\<rparr>]). a = 5"
    by (simp add: spec_answered_def)
  have b4: "map snd (spec_answered [(1, Some 5), (2, Some 5), (9, None)]
      [\<lparr>q_id = 1, weight = Some ''Critical''\<rparr>, \<lparr>q_id = 2, weight = Some ''High''\<rparr>,
      \<lparr>q_id = 3, weight = Some ''Low''\<rparr>]) = [5, 5]"
    by (simp add: spec_answered_def)
  have b5: "calc_vulnerability exact [(1, Some 5), (2, Some 5), (9, None)]
      [\<lparr>q_id = 1, weight = Some ''Critical''\<rparr>, \<lparr>q_id = 2, weight = Some ''High''\<rparr>,
      \<lparr>q_id = 3, weight = Some ''Low''\<rparr>] None = 20"
    using weighted_mean_vulnerability [OF b1 b2 o2, where fl = exact] b3 by blast
  have e1: "fl64 ((6 - 5) / 5) = 3602879701896397 / 18014398509481984"
    by (rule fl64_value [where k = "- 3"]) (simp_all add: powr_minus py_round_def Let_def)
  have e2: "fl64 (3602879701896397 / 18014398509481984 * 3) = 1351079888211149 / 2251799813685248"
    by (rule fl64_value [where k = "- 1"]) (simp_all add: powr_minus py_round_def Let_def)
  have e3: "fl64 (0 + 1351079888211149 / 2251799813685248) = 1351079888211149 / 2251799813685248"
    by (rule fl64_value [where k = "- 1"]) (simp_all add: powr_minus py_round_def Let_def)
  have e4: "fl64 (3602879701896397 / 18014398509481984 * 2) = 3602879701896397 / 9007199254740992"
    by (rule fl64_value [where k = "- 2"]) (simp_all add: powr_minus py_round_def Let_def)
  have e5: "fl64 (1351079888211149 / 2251799813685248 + 3602879701896397 / 9007199254740992) = 1"
    by (rule fl64_value [where k = "0"]) (simp_all add: powr_minus py_round_def Let_def)
  have e6: "fl64 (1 / 5) = 3602879701896397 / 18014398509481984"
    by (rule fl64_value [where k = "- 3"]) (simp_all add: powr_minus py_round_def Let_def)
  have e7: "fl64 (3602879701896397 / 18014398509481984 * 100) = 20"
    by (rule fl64_value [where k = "4"]) (simp_all add: powr_minus py_round_def Let_def)
  have "spec_weighted_percentage fl64 [(1, Some 5), (2, Some 5), (9, None)]
      [\<lparr>q_id = 1, weight = Some ''Critical''\<rparr>, \<lparr>q_id = 2, weight = Some ''High''\<rparr>,
      \<lparr>q_id = 3, weight = Some ''Low''\<rparr>]
        = fl64 (fl64 (fl64 (fl64 (0 + fl64 (fl64 ((6 - 5) / 5) * 3)) + fl64 (fl64 ((6 - 5) / 5) * 2)) / 5) * 100)"
    by (simp add: spec_weighted_percentage_def spec_answered_def spec_weight_def fl_sum_def)
  also have "\<dots> = 20"
    by (simp only: e1 e2 e3 e4 e5 e6 e7)
  finally have b6: "spec_weighted_percentage fl64 [(1, Some 5), (2, Some 5), (9, None)]
      [\<lparr>q_id = 1, weight = Some ''Critical''\<rparr>, \<lparr>q_id = 2, weight = Some ''High''\<rparr>,
      \<lparr>q_id = 3, weight = Some ''Low''\<rparr>] = 20" .
  have b6': "py_round (20) = 20"
    by (simp add: py_round_def Let_def)
  have b7: "calc_vulnerability fl64 [(1, Some 5), (2, Some 5), (9, None)]
      [\<lparr>q_id = 1, weight = Some ''Critical''\<rparr>, \<lparr>q_id = 2, weight = Some ''High''\<rparr>,
      \<lparr>q_id = 3, weight = Some ''Low''\<rparr>] None = 20"
    using weighted_mean_vulnerability [OF b1 b2 o2, where fl = fl64] b6' unfolding b6 by metis
  have c1: "[(1, Some 1), (2, Some 2), (3, Some 5)] \<noteq> ([] :: answers)"
    by simp
  have c2: "\<exists>q \<in> set [\<lparr>q_id = 1, weight = Some ''Critical''\<rparr>, \<lparr>q_id = 2, weight = Some ''Critical''\<rparr>,
      \<lparr>q_id = 3, weight = Some ''High''\<rparr>].
              \<exists>a. map_of [(1, Some 1), (2, Some 2), (3, Some 5)] (q_id q) = Some (Some a)"
    by simp
  have c3: "spec_weighted_mean [(1, Some 1), (2, Some 2), (3, Some 5)]
      [\<lparr>q_id = 1, weight = Some ''Critical''\<rparr>, \<lparr>q_id = 2, weight = Some ''Critical''\<rparr>,
      \<lparr>q_id = 3, weight = Some ''High''\<rparr>] * 100 = 145 / 2"
    by (simp add: spec_weighted_mean_def spec_answered_def spec_weight_def)
  have d1: "fl64 ((6 - 1) / 5) = 1"
    by (rule fl64_value [where k = "0"]) (simp_all add: powr_minus py_round_def Let_def)
  have d2: "fl64 (1 * 3) = 3"
    by (rule fl64_value [where k = "1"]) (simp_all add: powr_minus py_round_def Let_def)
  have d3: "fl64 (0 + 3) = 3"
    by (rule fl64_value [where k = "1"]) (simp_all add: powr_minus py_round_def Let_def)
  have d4: "fl64 ((6 - 2) / 5) = 3602879701896397 / 4503599627370496"
    by (rule fl64_value [where k = "- 1"]) (simp_all add: powr_minus py_round_def Let_def)
  have d5: "fl64 (3602879701896397 / 4503599627370496 * 3) = 1351079888211149 / 562949953421312"
    by (rule fl64_value [where k = "1"]) (simp_all add: powr_minus py_round_def Let_def)
  have d6: "fl64 (3 + 1351079888211149 / 562949953421312) = 3039929748475085 / 562949953421312"
    by (rule fl64_value [where k = "2"]) (simp_all add: powr_minus py_round_def Let_def)
  have d7: "fl64 ((6 - 5) / 5) = 3602879701896397 / 18014398509481984"
    by (rule fl64_value [where k = "- 3"]) (simp_all add: powr_minus py_round_def Let_def)
  have d8: "fl64 (3602879701896397 / 18014398509481984 * 2) = 3602879701896397 / 9007199254740992"
    by (rule fl64_value [where k = "- 2"]) (simp_all add: powr_minus py_round_def Let_def)
  have d9: "fl64 (3039929748475085 / 562949953421312 + 3602879701896397 / 9007199254740992) = 1632554864921805 / 281474976710656"
    by (rule fl64_value [where k = "2"]) (simp_all add: powr_minus py_round_def Let_def)
  have d10: "fl64 (1632554864921805 / 281474976710656 / 8) = 1632554864921805 / 2251799813685248"
    by (rule fl64_value [where k = "- 1"]) (simp_all add: powr_minus py_round_def Let_def)
  have d11: "fl64 (1632554864921805 / 2251799813685248 * 100) = 5101733952880641 / 70368744177664"
    by (rule fl64_value [where k = "6"]) (simp_all add: powr_minus py_round_def Let_def)
  have "spec_weighted_percentage fl64 [(1, Some 1), (2, Some 2), (3, Some 5)]
      [\<lparr>q_id = 1, weight = Some ''Critical''\<rparr>, \<lparr>q_id = 2, weight = Some ''Critical''\<rparr>,
      \<lparr>q_id = 3, weight = Some ''High''\<rparr>]
        = fl64 (fl64 (fl64 (fl64 (fl64 (0 + fl64 (fl64 ((6 - 1) / 5) * 3))
                                   + fl64 (fl64 ((6 - 2) / 5) * 3))
                             + fl64 (fl64 ((6 - 5) / 5) * 2)) / 8) * 100)"
    by (simp add: spec_weighted_percentage_def spec_answered_def spec_weight_def fl_sum_def)
  also have "\<dots> = 5101733952880641 / 70368744177664"
    by (simp only: d1 d2 d3 d4 d5 d6 d7 d8 d9 d10 d11)
  finally have c4: "spec_weighted_percentage fl64 [(1, Some 1), (2, Some 2), (3, Some 5)]
      [\<lparr>q_id = 1, weight = Some ''Critical''\<rparr>, \<lparr>q_id = 2, weight = Some ''Critical''\<rparr>,
      \<lparr>q_id = 3, weight = Some ''High''\<rparr>] = 5101733952880641 / 70368744177664" .
  have c4': "py_round (5101733952880641 / 70368744177664) = 73"
    by (simp add: py_round_def Let_def)
  have c5: "calc_vulnerability fl64 [(1, Some 1), (2, Some 2), (3, Some 5)]
      [\<lparr>q_id = 1, weight = Some ''Critical''\<rparr>, \<lparr>q_id = 2, weight = Some ''Critical''\<rparr>,
      \<lparr>q_id = 3, weight = Some ''High''\<rparr>] None = 73"
    using weighted_mean_vulnerability [OF c1 c2 o2, where fl = fl64] c4' unfolding c4 by metis
  have f1: "[(1, Some 5), (2, Some 5), (3, Some 5)] \<noteq> ([] :: answers)"
    by simp
  have f2: "\<exists>q \<in> set [\<lparr>q_id = 1, weight = Some ''Critical''\<rparr>, \<lparr>q_id = 2, weight = Some ''High''\<rparr>,
      \<lparr>q_id = 3, weight = Some ''Low''\<rparr>].
              \<exists>a. map_of [(1, Some 5), (2, Some 5), (3, Some 5)] (q_id q) = Some (Some a)"
    by simp
  have f3: "length (spec_answered [(1, Some 5), (2, Some 5), (3, Some 5)]
      [\<lparr>q_id = 1, weight = Some ''Critical''\<rparr>, \<lparr>q_id = 2, weight = Some ''High''\<rparr>,
      \<lparr>q_id = 3, weight = Some ''Low''\<rparr>]) + 4 \<le> 2 ^ 46 \<and>
      (\<forall>(w, a) \<in> set (spec_answered [(1, Some 5), (2, Some 5), (3, Some 5)]
      [\<lparr>q_id = 1, weight = Some ''Critical''\<rparr>, \<lparr>q_id = 2, weight = Some ''High''\<rparr>,
      \<lparr>q_id = 3, weight = Some ''Low''\<rparr>]). a = 5)"
    by (simp add: spec_answered_def)
  have f4: "calc_vulnerability fl64 [(1, Some 5), (2, Some 5), (3, Some 5)]
      [\<lparr>q_id = 1, weight = Some ''Critical''\<rparr>, \<lparr>q_id = 2, weight = Some ''High''\<rparr>,
      \<lparr>q_id = 3, weight = Some ''Low''\<rparr>] None = 20"
    using weighted_mean_vulnerability [OF f1 f2 o2] f3 by blast
  have o3: "case (Some \<lparr>ransomware = None, ssl = Some ''B'', dmarc = None\<rparr>) of
              None \<Rightarrow> True
            | Some r \<Rightarrow> ssl r \<noteq> Some ''F'' \<and> ssl r \<noteq> Some ''Expired'' \<and> dmarc r \<noteq> Some False"
    by simp
  have g1: "[(7, Some 5)] \<noteq> ([] :: answers)"
    by simp
  have g2: "\<exists>q \<in> set [\<lparr>q_id = 7, weight = None\<rparr>].
              \<exists>a. map_of [(7, Some 5)] (q_id q) = Some (Some a)"
    by simp
  have gl: "length (spec_answered [(7, Some 5)] [\<lparr>q_id = 7, weight = None\<rparr>]) + 4 = 5"
    by (simp add: spec_answered_def)
  have "(1 + 1 / 2 ^ 53 :: real) ^ 5 \<le> 1 + 1 / 2 ^ (52 - 3)"
    by (rule fl64_power_bound) simp_all
  then have gp: "(1 + 1 / 2 ^ 53 :: real) ^ (length (spec_answered [(7, Some 5)] [\<lparr>q_id = 7, weight = None\<rparr>]) + 4) < 41 / 40"
    unfolding gl by simp
  have g5: "\<forall>(w, a) \<in> set (spec_answered [(7, Some 5)] [\<lparr>q_id = 7, weight = None\<rparr>]). a = 5"
    by (simp add: spec_answered_def)
  have g3: "accurate_rounding fl64 (1 / 2 ^ 53) \<and>
      (1 + 1 / 2 ^ 53 :: real) ^ (length (spec_answered [(7, Some 5)] [\<lparr>q_id = 7, weight = None\<rparr>]) + 4) < 41 / 40 \<and>
      (\<forall>(w, a) \<in> set (spec_answered [(7, Some 5)] [\<lparr>q_id = 7, weight = None\<rparr>]). a = 5)"
    using fl64_accurate gp g5 by blast
  have g4: "calc_vulnerability fl64 [(7, Some 5)] [\<lparr>q_id = 7, weight = None\<rparr>]
      (Some \<lparr>ransomware = None, ssl = Some ''B'', dmarc = None\<rparr>) = 20"
    using weighted_mean_vulnerability [OF g1 g2 o3, where fl = fl64] g3 by blast
  have h1: "length (spec_answered [(1, Some 1), (2, Some 2), (3, Some 5)]
      [\<lparr>q_id = 1, weight = Some ''Critical''\<rparr>, \<lparr>q_id = 2, weight = Some ''Critical''\<rparr>,
      \<lparr>q_id = 3, weight = Some ''High''\<rparr>]) + 4 \<le> 2 ^ 20 \<and>
      20 * (\<Sum>(w, a)\<leftarrow>spec_answered [(1, Some 1), (2, Some 2), (3, Some 5)]
      [\<lparr>q_id = 1, weight = Some ''Critical''\<rparr>, \<lparr>q_id = 2, weight = Some ''Critical''\<rparr>,
      \<lparr>q_id = 3, weight = Some ''High''\<rparr>]. \<bar>w * (6 - a)\<bar>) < 2 ^ 31"
    by (simp add: spec_answered_def spec_weight_def)
  have "\<bar>real_of_int (calc_vulnerability fl64 [(1, Some 1), (2, Some 2), (3, Some 5)]
      [\<lparr>q_id = 1, weight = Some ''Critical''\<rparr>, \<lparr>q_id = 2, weight = Some ''Critical''\<rparr>,
      \<lparr>q_id = 3, weight = Some ''High''\<rparr>] None)
         - spec_weighted_mean [(1, Some 1), (2, Some 2), (3, Some 5)]
      [\<lparr>q_id = 1, weight = Some ''Critical''\<rparr>, \<lparr>q_id = 2, weight = Some ''Critical''\<rparr>,
      \<lparr>q_id = 3, weight = Some ''High''\<rparr>] * 100\<bar> \<le> 1 / 2"
    using weighted_mean_vulnerability [OF c1 c2 o2] h1 by blast
  then have h3: "\<bar>real_of_int (calc_vulnerability fl64 [(1, Some 1), (2, Some 2), (3, Some 5)]
      [\<lparr>q_id = 1, weight = Some ''Critical''\<rparr>, \<lparr>q_id = 2, weight = Some ''Critical''\<rparr>,
      \<lparr>q_id = 3, weight = Some ''High''\<rparr>] None) - 145 / 2\<bar> \<le> 1 / 2"
    unfolding c3 .
  show ?thesis
    using a3 a4 b4 b5 b7 c3 c5 f4 g4 h3 by blast
qed

section \<open>Cloud track: range and status of a scorecard\<close>

lemma cloud_score:
  "score (calc_cloud_vulnerability fl scores criteria osint_results)
     = py_round (total_score_loop fl scores criteria 0)"
  by (simp add: calc_cloud_vulnerability_def Let_def split: prod.splits)

lemma cloud_maxScore: "maxScore (calc_cloud_vulnerability fl scores criteria osint_results) = 55"
  by (simp add: calc_cloud_vulnerability_def Let_def split: prod.splits)

lemma cloud_vulnerability:
  "vulnerability (calc_cloud_vulnerability fl scores criteria osint_results)
     = osint_floor osint_results
         (py_round (fl (fl (1 - fl (total_score_loop fl scores criteria 0 / 55)) * 100)))"
  by (simp add: calc_cloud_vulnerability_def Let_def split: prod.splits)

lemma total_score_loop_sum:
  "total_score_loop exact scores criteria acc = acc + spec_total_score scores criteria"
  by (induction criteria arbitrary: acc)
     (simp_all add: spec_total_score_def spec_weighted_points_def Let_def exact_def)

lemma spec_weighted_points_bounds:
  assumes "\<forall>(k, v) \<in> set scores. 0 \<le> v \<and> v \<le> 5"
    and "\<forall>p. points c = Some p \<longrightarrow> 0 \<le> p"
  shows "0 \<le> spec_weighted_points scores c \<and>
         spec_weighted_points scores c \<le> (case points c of None \<Rightarrow> 0 | Some p \<Rightarrow> p)"
proof -
  define m where "m = (case map_of scores (c_id c) of None \<Rightarrow> 0 | Some m \<Rightarrow> m)"
  define p where "p = (case points c of None \<Rightarrow> 0 | Some p \<Rightarrow> p)"
  have m: "0 \<le> m \<and> m \<le> 5"
    using assms(1) by (auto simp: m_def split: option.splits dest!: map_of_SomeD)
  have p: "0 \<le> p"
    using assms(2) by (auto simp: p_def split: option.splits)
  have f: "0 \<le> real_of_int m / 5 \<and> real_of_int m / 5 \<le> 1"
    using m by simp
  have "0 \<le> real_of_int m / 5 * p" using f p by simp
  moreover have "real_of_int m / 5 * p \<le> 1 * p"
    using f p by (intro mult_right_mono) simp_all
  ultimately show ?thesis
    by (simp add: spec_weighted_points_def m_def p_def)
qed

lemma spec_total_score_bounds:
  assumes "\<forall>(k, v) \<in> set scores. 0 \<le> v \<and> v \<le> 5"
    and "\<forall>c \<in> set criteria. \<forall>p. points c = Some p \<longrightarrow> 0 \<le> p"
  shows "0 \<le> spec_total_score scores criteria \<and>
         spec_total_score scores criteria \<le> total_points criteria"
  using assms(2)
proof (induction criteria)
  case Nil
  then show ?case by (simp add: spec_total_score_def total_points_def)
next
  case (Cons c cs)
  then have ih: "0 \<le> spec_total_score scores cs \<and> spec_total_score scores cs \<le> total_points cs"
    by simp
  from Cons.prems have "\<forall>p. points c = Some p \<longrightarrow> 0 \<le> p" by simp
  from spec_weighted_points_bounds [OF assms(1) this] ih
  show ?case by (simp add: spec_total_score_def total_points_def)
qed

lemma total_points_nonneg:
  "\<forall>c \<in> set criteria. \<forall>p. points c = Some p \<longrightarrow> 0 \<le> p \<Longrightarrow> 0 \<le> total_points criteria"
  unfolding total_points_def
  by (rule sum_list_nonneg) (auto split: option.splits)

text \<open>
  With a rounding that keeps the order and the small integers, and points that are
  integers, the running total never passes the integer sum of the points met so far.
\<close>

lemma total_score_loop_range:
  assumes "monotone_rounding fl"
    and "\<forall>(k, v) \<in> set scores. 0 \<le> v \<and> v \<le> 5"
    and "\<forall>c \<in> set criteria. \<forall>p. points c = Some p \<longrightarrow> 0 \<le> p \<and> p \<in> \<int>"
    and "0 \<le> a" and "0 \<le> acc" and "acc \<le> of_int a"
    and "of_int a + total_points criteria \<le> 55"
  shows "0 \<le> total_score_loop fl scores criteria acc \<and>
         total_score_loop fl scores criteria acc \<le> 55"
  using assms(3-7)
proof (induction criteria arbitrary: a acc)
  case Nil
  then show ?case by (simp add: total_points_def)
next
  case (Cons c cs)
  have mono: "fl x \<le> fl y" if "0 \<le> x" "x \<le> y" for x y
    using assms(1) that unfolding monotone_rounding_def by blast
  have keep: "fl (of_int n) = of_int n" if "0 \<le> n" "n \<le> 100" for n :: int
    using assms(1) that unfolding monotone_rounding_def by blast
  define m where "m = (case map_of scores (c_id c) of None \<Rightarrow> 0 | Some m \<Rightarrow> m)"
  define p where "p = (case points c of None \<Rightarrow> 0 | Some p \<Rightarrow> p)"
  have m: "0 \<le> m \<and> m \<le> 5"
    using assms(2) by (auto simp: m_def split: option.splits dest!: map_of_SomeD)
  have "0 \<le> p \<and> p \<in> \<int>"
    using Cons.prems(1) by (auto simp: p_def split: option.splits)
  then obtain k :: int where k: "p = of_int k" "0 \<le> k"
    by (auto elim!: Ints_cases)
  have rest: "0 \<le> total_points cs"
    using Cons.prems(1) by (intro total_points_nonneg) auto
  have tp: "total_points (c # cs) = of_int k + total_points cs"
    by (simp add: total_points_def p_def [symmetric] k(1))
  have ak: "real_of_int (a + k) + total_points cs \<le> 55"
    using Cons.prems(5) unfolding tp by simp
  with rest have ak55: "a + k \<le> 55" by linarith
  have k100: "k \<le> 100" using ak55 Cons.prems(2) by simp
  have f0: "fl 0 = 0" using keep [of 0] by simp
  have f1: "fl 1 = 1" using keep [of 1] by simp
  have q: "0 \<le> fl (of_int m / 5) \<and> fl (of_int m / 5) \<le> 1"
    using mono [of 0 "of_int m / 5"] mono [of "of_int m / 5" 1] m f0 f1 by simp
  have x: "0 \<le> fl (of_int m / 5) * p \<and> fl (of_int m / 5) * p \<le> p"
    using q k by (simp add: mult_left_le_one_le)
  have wp: "0 \<le> fl (fl (of_int m / 5) * p) \<and> fl (fl (of_int m / 5) * p) \<le> p"
    using mono [of 0 "fl (of_int m / 5) * p"] mono [of "fl (of_int m / 5) * p" p] x f0
      keep [OF k(2) k100] k(1)
    by simp
  have s: "0 \<le> acc + fl (fl (of_int m / 5) * p) \<and>
           acc + fl (fl (of_int m / 5) * p) \<le> of_int (a + k)"
    using wp Cons.prems(3,4) k(1) by simp
  have ak0: "0 \<le> a + k" "a + k \<le> 100"
    using Cons.prems(2) k(2) ak55 by simp_all
  have acc': "0 \<le> fl (acc + fl (fl (of_int m / 5) * p)) \<and>
              fl (acc + fl (fl (of_int m / 5) * p)) \<le> of_int (a + k)"
    using mono [of 0 "acc + fl (fl (of_int m / 5) * p)"]
      mono [of "acc + fl (fl (of_int m / 5) * p)" "of_int (a + k)"] s f0 keep [OF ak0]
    by simp
  have pts: "\<forall>c \<in> set cs. \<forall>p. points c = Some p \<longrightarrow> 0 \<le> p \<and> p \<in> \<int>"
    using Cons.prems(1) by simp
  show ?case
    using Cons.IH [OF pts ak0(1) conjunct1 [OF acc'] conjunct2 [OF acc'] ak]
    by (simp add: Let_def m_def p_def)
qed

lemma percentage_range:
  assumes "monotone_rounding fl" and "0 \<le> t" and "t \<le> 55"
  shows "0 \<le> fl (fl (1 - fl (t / 55)) * 100) \<and> fl (fl (1 - fl (t / 55)) * 100) \<le> 100"
proof -
  have mono: "fl x \<le> fl y" if "0 \<le> x" "x \<le> y" for x y
    using assms(1) that unfolding monotone_rounding_def by blast
  have keep: "fl (of_int n) = of_int n" if "0 \<le> n" "n \<le> 100" for n :: int
    using assms(1) that unfolding monotone_rounding_def by blast
  have f0: "fl 0 = 0" using keep [of 0] by simp
  have f1: "fl 1 = 1" using keep [of 1] by simp
  have f100: "fl 100 = 100" using keep [of 100] by simp
  have q: "0 \<le> fl (t / 55) \<and> fl (t / 55) \<le> 1"
    using mono [of 0 "t / 55"] mono [of "t / 55" 1] assms(2,3) f0 f1 by simp
  have o: "0 \<le> fl (1 - fl (t / 55)) \<and> fl (1 - fl (t / 55)) \<le> 1"
    using mono [of 0 "1 - fl (t / 55)"] mono [of "1 - fl (t / 55)" 1] q f0 f1 by simp
  show ?thesis
    using mono [of 0 "fl (1 - fl (t / 55)) * 100"] mono [of "fl (1 - fl (t / 55)) * 100" 100]
      o f0 f100
    by simp
qed




lemma total_score_loop_error:
  assumes "accurate_rounding fl u"
    and "\<bar>s' - s\<bar> \<le> A * ((1 + u) ^ k - 1)" and "\<bar>s\<bar> \<le> A" and "2 \<le> k"
  shows "\<bar>total_score_loop fl scores criteria s' - (s + spec_total_score scores criteria)\<bar>
         \<le> (A + spec_abs_total_score scores criteria) * ((1 + u) ^ (k + length criteria) - 1)"
  using assms(2-4)
proof (induction criteria arbitrary: s' s A k)
  case Nil
  then show ?case by (simp add: spec_total_score_def spec_abs_total_score_def)
next
  case (Cons c cs)
  define n where "n = real_of_int (case map_of scores (c_id c) of None \<Rightarrow> 0 | Some m \<Rightarrow> m) / 5"
  define p where "p = (case points c of None \<Rightarrow> 0 | Some p \<Rightarrow> p)"
  define t where "t = spec_weighted_points scores c"
  define t' where "t' = fl (fl n * p)"
  have t: "t = p * n" unfolding t_def n_def p_def spec_weighted_points_def by simp
  have u: "0 \<le> u" using assms(1) by (simp add: accurate_rounding_def)
  have te: "\<bar>t' - t\<bar> \<le> \<bar>t\<bar> * ((1 + u) ^ 2 - 1)"
    unfolding t'_def t by (rule term_error [OF assms(1)])
  have "\<bar>t\<bar> * ((1 + u) ^ 2 - 1) \<le> \<bar>t\<bar> * ((1 + u) ^ k - 1)"
    by (rule power_factor_mono [OF u Cons.prems(3)]) simp
  with te have te': "\<bar>t' - t\<bar> \<le> \<bar>t\<bar> * ((1 + u) ^ k - 1)" by linarith
  have "\<bar>(s' + t') - (s + t)\<bar> \<le> \<bar>s' - s\<bar> + \<bar>t' - t\<bar>" by linarith
  also have "\<dots> \<le> A * ((1 + u) ^ k - 1) + \<bar>t\<bar> * ((1 + u) ^ k - 1)"
    using Cons.prems(1) te' by linarith
  also have "\<dots> = (A + \<bar>t\<bar>) * ((1 + u) ^ k - 1)" by (simp add: algebra_simps)
  finally have d: "\<bar>(s' + t') - (s + t)\<bar> \<le> (A + \<bar>t\<bar>) * ((1 + u) ^ k - 1)" .
  have b: "\<bar>s + t\<bar> \<le> A + \<bar>t\<bar>" using Cons.prems(2) by linarith
  have step: "\<bar>fl (s' + t') - (s + t)\<bar> \<le> (A + \<bar>t\<bar>) * ((1 + u) ^ Suc k - 1)"
    by (rule accurate_step [OF assms(1) d b])
  have k: "2 \<le> Suc k" using Cons.prems(3) by simp
  have l: "total_score_loop fl scores (c # cs) s' = total_score_loop fl scores cs (fl (s' + t'))"
    by (simp add: Let_def t'_def n_def p_def)
  show ?case
    unfolding l using Cons.IH [OF step b k]
    by (simp add: spec_total_score_def spec_abs_total_score_def t_def add.assoc)
qed

lemma total_score_error:
  assumes "accurate_rounding fl u"
  shows "\<bar>total_score_loop fl scores criteria 0 - spec_total_score scores criteria\<bar>
         \<le> spec_abs_total_score scores criteria * ((1 + u) ^ (length criteria + 2) - 1)"
proof -
  have "\<bar>total_score_loop fl scores criteria 0 - (0 + spec_total_score scores criteria)\<bar>
          \<le> (0 + spec_abs_total_score scores criteria) * ((1 + u) ^ (2 + length criteria) - 1)"
    by (rule total_score_loop_error [OF assms]) simp_all
  then show ?thesis by (simp add: add.commute)
qed

lemma spec_abs_total_score_nonneg: "0 \<le> spec_abs_total_score scores criteria"
  unfolding spec_abs_total_score_def by (rule sum_list_nonneg) auto



section \<open>OSINT checks: certificate and DMARC\<close>

lemma get_cache_hit:
  "get_cache cache now key ttl = (Some v, cache') \<Longrightarrow> cache' = cache \<and> (\<exists>t. cache key = Some (v, t))"
  by (auto simp: get_cache_def split: option.splits prod.splits if_splits)

lemma get_cache_miss:
  "get_cache cache now key ttl = (None, cache') \<Longrightarrow> cache' = cache \<or> cache' = cache(key := None)"
  by (auto simp: get_cache_def split: option.splits prod.splits if_splits)

lemma cert_cache_ok_initial: "cert_cache_ok initial_cache"
  by (simp add: cert_cache_ok_def initial_cache_def)

lemma cert_cache_ok_delete: "cert_cache_ok cache \<Longrightarrow> cert_cache_ok (cache(key := None))"
  by (simp add: cert_cache_ok_def)

lemma cert_cache_ok_set:
  "cert_cache_ok cache \<Longrightarrow> grade r = spec_grade (daysRemaining r) \<Longrightarrow>
   cert_cache_ok (set_cache cache later key (CertificateStats r))"
  by (simp add: cert_cache_ok_def set_cache_def)

lemma cert_cache_ok_set_other:
  "cert_cache_ok cache \<Longrightarrow> cert_cache_ok (set_cache cache later (CHR ''d'' # k) v)"
  by (simp add: cert_cache_ok_def set_cache_def)

lemma check_dmarc_keeps_cert_cache:
  assumes "cert_cache_ok cache"
  shows "cert_cache_ok (snd (check_dmarc cache now later dns domain_name))"
proof (cases "get_cache cache now (''dmarc_'' @ domain_name) 300")
  case (Pair hit cache')
  have ok': "cert_cache_ok cache'"
  proof (cases hit)
    case None
    with Pair get_cache_miss [of cache now _ 300 cache'] assms cert_cache_ok_delete
    show ?thesis by auto
  next
    case (Some v)
    with Pair get_cache_hit [of cache now _ 300 v cache'] assms show ?thesis by auto
  qed
  show ?thesis
    using assms ok' Pair
    by (auto simp: check_dmarc_def Let_def cert_cache_ok_set_other split: option.splits)
qed

lemma grade_chain:
  "(if d < 0 then ''F'' else if d < 7 then ''F'' else if d < 30 then ''C''
    else if d < 60 then ''B'' else ''A'') = spec_grade d"
  by (simp add: spec_grade_def)



lemma lower_char_b: "lower_char (CHR ''b'') = CHR ''b''"
  by (simp add: lower_char_def)

lemma record_text_not_dmarc:
  "\<not> prefix ''v=dmarc1'' (lower (concat (map bytes_repr strings)))"
proof (cases strings)
  case Nil
  then show ?thesis by (simp add: lower_def)
next
  case (Cons bs rest)
  then show ?thesis
    by (simp add: bytes_repr_def Let_def lower_def lower_char_b)
qed

lemma find_dmarc_never: "find_dmarc records = None"
  by (induction records) (simp_all add: Let_def record_text_not_dmarc)

text \<open>
  Claim C9, where the code is wrong. On a lookup that reaches the name system (a domain
  that is not blank, and no fresh cache entry), \<^const>\<open>check_dmarc\<close> returns
  \<^verbatim>\<open>has_dmarc\<close> false and no policy whatever the TXT answer is: the text it tests is
  built from \<^verbatim>\<open>str\<close> of \<^verbatim>\<open>bytes\<close> objects, so it is empty or starts with the letter b,
  and never with \<^verbatim>\<open>v=dmarc1\<close>. A record that starts with \<^verbatim>\<open>v=DMARC1\<close> is not
  detected, and no policy is ever extracted.
\<close>

theorem check_dmarc_never_detects:
  assumes "domain_name \<noteq> []" and "strip domain_name \<noteq> []"
    and "fst (get_cache cache now (''dmarc_'' @ domain_name) 300) = None"
  shows "fst (check_dmarc cache now later dns domain_name)
           = DmarcResult \<lparr>has_dmarc = False, policy = None, domain = domain_name\<rparr>"
proof -
  obtain hit cache' where gc: "get_cache cache now (''dmarc_'' @ domain_name) 300 = (hit, cache')"
    by (cases "get_cache cache now (''dmarc_'' @ domain_name) 300")
  with assms(3) have hit: "hit = None" by simp
  show ?thesis
    using assms(1,2) gc hit
    by (simp add: check_dmarc_def Let_def find_dmarc_never split: dns_answer.splits)
qed

text \<open>
  The failing input of C9, on the initial cache: the name \<^verbatim>\<open>_dmarc.example.com\<close> answers
  with the one record \<^verbatim>\<open>v=DMARC1; p=reject\<close>, which starts with \<^verbatim>\<open>v=DMARC1\<close>, and the
  code returns \<^verbatim>\<open>has_dmarc\<close> false.
\<close>

theorem check_dmarc_never_detects_witness:
  "spec_is_dmarc [''v=DMARC1; p=reject''] \<and>
   bytes_repr ''v=DMARC1; p=reject'' = CHR ''b'' # CHR 0x27 # ''v=DMARC1; p=reject'' @ [CHR 0x27] \<and>
   fst (check_dmarc initial_cache 0 1
          [(''_dmarc.example.com'', TxtRecords [[''v=DMARC1; p=reject'']])] ''example.com'')
     = DmarcResult \<lparr>has_dmarc = False, policy = None, domain = ''example.com''\<rparr>"
proof -
  have h1: "''example.com'' \<noteq> []" by simp
  have h2: "strip ''example.com'' \<noteq> []"
    by (simp add: strip_def py_isspace_def)
  have h3: "fst (get_cache initial_cache 0 (''dmarc_'' @ ''example.com'') 300) = None"
    by (simp add: get_cache_def initial_cache_def)
  have s: "spec_is_dmarc [''v=DMARC1; p=reject'']"
    by (simp add: spec_is_dmarc_def)
  have r: "bytes_repr ''v=DMARC1; p=reject''
             = CHR ''b'' # CHR 0x27 # ''v=DMARC1; p=reject'' @ [CHR 0x27]"
    by (simp add: bytes_repr_def repr_byte_def Let_def)
  show ?thesis
    using check_dmarc_never_detects [OF h1 h2 h3, of 1
        "[(''_dmarc.example.com'', TxtRecords [[''v=DMARC1; p=reject'']])]"] s r
    by blast
qed

end
